theory Spec2Isabelle
  imports Main "HOL-Library.List_Lexorder" "HOL-Library.Char_ord"
begin

section \<open>The BERT notebook of text\_classification\_benchmarks\<close>

text \<open>
  The only executable source of the repository at hand is the notebook
  \<^verbatim>\<open>src/text_classification_benchmarks/notebooks/BERT.ipynb\<close>. Its code cells are
  embedded here one by one, in the order of the file, as functions on an explicit notebook
  state. Everything the notebook does to the outside (imports, calls into imported
  modules, lines written by \<^verbatim>\<open>print\<close>) is appended to a trace, in the order in which
  Python evaluates it. An assignment to an attribute of an object of a library would be
  an event of the trace as well, and a function or class defined in a cell a kind of
  argument; the notebook holds neither.

  The libraries the notebook drives (tensorflow, numpy, csv, the bert modules
  \<^verbatim>\<open>modeling\<close>, \<^verbatim>\<open>run_classifier\<close>, \<^verbatim>\<open>tokenization\<close>, and the module
  \<^verbatim>\<open>text_classification_benchmarks.metrics\<close>) are not part of the source at hand. They
  are a parameter of the model, the environment: a call into them returns an opaque object
  of type \<open>'o\<close> that depends on the callee and its arguments, and the few places where
  the notebook itself looks into such an object (iterating it, indexing it, taking its
  length) are further fields of the environment. Calls into the libraries are taken to
  return. The exceptions that depend on the data the notebook reads are branches of the
  model: \<^verbatim>\<open>csv.Error\<close> while a CSV file is read, unpacking a row, \<^verbatim>\<open>int\<close> of a
  string, indexing \<^verbatim>\<open>classes\<close>, \<^verbatim>\<open>next\<close> of an exhausted generator.
\<close>

subsection \<open>Values, calls, events\<close>

text \<open>An argument of a library call, as the notebook passes it.\<close>

datatype 'o arg =
    StrV string
  | IntV int
  | BoolV bool
  | NoneV
  | FloatLit string  \<comment> \<open>a float literal, kept as written: \<^verbatim>\<open>5e-5\<close>\<close>
  | AttrV string     \<comment> \<open>an attribute of a module, by its dotted name: \<^verbatim>\<open>tf.logging.FATAL\<close>\<close>
  | ObjV 'o          \<comment> \<open>an object that an earlier library call returned\<close>
  | ListV "'o list"  \<comment> \<open>a list of such objects\<close>
  | IntsV "int list" \<comment> \<open>a list of integers\<close>
  | DefV string      \<comment> \<open>a function or class that a cell of the notebook defines, by its name\<close>

type_synonym 'o kwargs = "(string \<times> 'o arg) list"

text \<open>
  A call into a library: a function of a module by its dotted name as the notebook writes
  it, or a method of an object held by a variable of the notebook (the variable, the
  object, the method). Each comes with its positional and its keyword arguments.
\<close>

datatype 'o call =
    Fn string "'o arg list" "'o kwargs"
  | Method string 'o string "'o arg list" "'o kwargs"

datatype 'o event =
    Import string                   \<comment> \<open>\<^verbatim>\<open>import m\<close>\<close>
  | FromImport string "string list" \<comment> \<open>\<^verbatim>\<open>from m import a, b\<close>\<close>
  | Called "'o call"
  | Print string                    \<comment> \<open>one line written by \<^verbatim>\<open>print\<close>\<close>
  | SetAttr 'o string "'o arg"      \<comment> \<open>\<^verbatim>\<open>obj.name = value\<close> on a library object\<close>

datatype error = ValueError | IndexError | StopIteration | CsvError

record 'o env =
  ret :: "'o call \<Rightarrow> 'o"
    \<comment> \<open>the object a library call returns\<close>
  py_int :: "string \<Rightarrow> int option"
    \<comment> \<open>the builtin \<^verbatim>\<open>int\<close> on a string; \<open>None\<close> is its ValueError\<close>
  len :: "'o \<Rightarrow> nat"
    \<comment> \<open>the builtin \<^verbatim>\<open>len\<close> on a library object\<close>
  iter_rows :: "'o \<Rightarrow> string list list"
    \<comment> \<open>the rows that iterating a \<^verbatim>\<open>csv.reader\<close> yields\<close>
  iter_raises :: "'o \<Rightarrow> bool"
    \<comment> \<open>whether the iteration of a \<^verbatim>\<open>csv.reader\<close> ends, after these rows, by
        \<^verbatim>\<open>csv.Error\<close> instead of the end of the file\<close>
  iter_preds :: "'o \<Rightarrow> int list"
    \<comment> \<open>the class indices that iterating the generator of \<^verbatim>\<open>estimator.predict\<close> yields\<close>
  getitem :: "'o \<Rightarrow> int \<Rightarrow> string option"
    \<comment> \<open>indexing the array \<^verbatim>\<open>classes\<close>, the element as \<^verbatim>\<open>print\<close> shows it;
        \<open>None\<close> is its IndexError\<close>
  dict_items :: "'o \<Rightarrow> (string \<times> string) list"
    \<comment> \<open>the items of a result dictionary, values as \<^verbatim>\<open>str.format\<close> shows them\<close>

text \<open>
  The generator of \<^verbatim>\<open>estimator.predict\<close> yields integers: the notebook indexes the numpy
  array \<^verbatim>\<open>classes\<close> with what it yields (\<^verbatim>\<open>classes[label]\<close> in cell 22), compares it
  with an \<^verbatim>\<open>int\<close> and collects it as a predicted label.
\<close>

subsection \<open>The notebook state\<close>

text \<open>
  The state holds what the cells mutate: \<^verbatim>\<open>sys.path\<close> (the entries the notebook appends),
  the lists and the counter that the loops fill, and the trace. The variables that are
  bound once to a constant or to the result of a library call are functions of the
  environment, under the names they have in the notebook. A cell returns the state it
  reached and the exception that stopped it, if one did; the kernel keeps the state of a
  cell that raised.
\<close>

record 'o nb =
  sys_path :: "string list"
  trace :: "'o event list"
  y_val :: "int list"
  y_val_pred :: "int list"
  incorrect :: int
  y_test :: "int list"
  y_test_pred :: "int list"

type_synonym 'o cell = "'o nb \<Rightarrow> error option \<times> 'o nb"

definition emit :: "'o event list \<Rightarrow> 'o nb \<Rightarrow> 'o nb" where
  "emit es s = s\<lparr>trace := trace s @ es\<rparr>"

text \<open>A \<^verbatim>\<open>for\<close> loop: the body runs on each element in turn, and an exception leaves the loop.\<close>

fun for_loop :: "('a \<Rightarrow> 's \<Rightarrow> error option \<times> 's) \<Rightarrow> 'a list \<Rightarrow> 's \<Rightarrow> error option \<times> 's" where
  "for_loop body [] s = (None, s)"
| "for_loop body (x # xs) s =
     (case body x s of
        (None, s') \<Rightarrow> for_loop body xs s'
      | (Some e, s') \<Rightarrow> (Some e, s'))"

text \<open>Running cells top to bottom stops at the first cell that raises.\<close>

fun run_cells :: "('s \<Rightarrow> error option \<times> 's) list \<Rightarrow> 's \<Rightarrow> error option \<times> 's" where
  "run_cells [] s = (None, s)"
| "run_cells (c # cs) s =
     (case c s of
        (None, s') \<Rightarrow> run_cells cs s'
      | (Some e, s') \<Rightarrow> (Some e, s'))"

text \<open>\<^verbatim>\<open>os.path.join\<close> of two components, as \<^verbatim>\<open>posixpath\<close> computes it.\<close>

definition os_path_join :: "string \<Rightarrow> string \<Rightarrow> string" where
  "os_path_join a b =
     (if b \<noteq> [] \<and> hd b = CHR ''/'' then b
      else if a = [] \<or> last a = CHR ''/'' then a @ b
      else a @ ''/'' @ b)"

subsection \<open>Constants of the notebook (cells 4, 7, 15, 16, 20)\<close>

definition DATA_DIR :: string where
  "DATA_DIR = ''/Users/d777710/src/DeepLearning/dltemplate/src/text_classification_benchmarks/fastai''"

definition BERT_BASE_DIR :: string where
  "BERT_BASE_DIR = ''/Users/d777710/src/DeepLearning/dltemplate/pretrained_models/bert/uncased_L-12_H-768_A-12''"

definition CODI_BERT_MODEL :: string where
  "CODI_BERT_MODEL = ''/Users/d777710/src/bert/codiout2''"

definition OUTPUT_DIR :: string where
  "OUTPUT_DIR = ''/tmp/output''"

definition max_api_calls :: nat where
  "max_api_calls = 200"

definition max_seq_length :: int where
  "max_seq_length = 128"

definition sample_utterance :: string where
  "sample_utterance = ''How long do I have left on my plan''"

definition val_csv :: string where
  "val_csv = ''../fastai/val.csv''"

definition test_csv :: string where
  "test_csv = ''../fastai/test.csv''"

definition classes_txt :: string where
  "classes_txt = ''../fastai/classes.txt''"

subsection \<open>Variables bound to the result of a library call\<close>

text \<open>
  For a variable \<open>x\<close> of the notebook, \<open>x_call\<close> is the call whose result it is bound to
  and \<open>x\<close> the object returned.
\<close>

definition config_file :: string where
  "config_file = os_path_join BERT_BASE_DIR ''bert_config.json''"

definition bert_config_call :: "'o call" where
  "bert_config_call = Fn ''modeling.BertConfig.from_json_file'' [StrV config_file] []"

definition bert_config :: "'o env \<Rightarrow> 'o" where
  "bert_config env = ret env bert_config_call"

definition processor_call :: "'o call" where
  "processor_call = Fn ''clf.CsvProcessor'' [] []"

definition processor :: "'o env \<Rightarrow> 'o" where
  "processor env = ret env processor_call"

definition label_list_call :: "'o env \<Rightarrow> 'o call" where
  "label_list_call env = Method ''processor'' (processor env) ''get_labels'' [StrV DATA_DIR] []"

definition label_list :: "'o env \<Rightarrow> 'o" where
  "label_list env = ret env (label_list_call env)"

definition vocab_file :: string where
  "vocab_file = os_path_join BERT_BASE_DIR ''vocab.txt''"

definition tokenizer_call :: "'o call" where
  "tokenizer_call =
     Fn ''tokenization.FullTokenizer'' []
       [(''vocab_file'', StrV vocab_file), (''do_lower_case'', BoolV True)]"

definition tokenizer :: "'o env \<Rightarrow> 'o" where
  "tokenizer env = ret env tokenizer_call"

definition init_checkpoint :: string where
  "init_checkpoint = CODI_BERT_MODEL"

definition model_fn_call :: "'o env \<Rightarrow> 'o call" where
  "model_fn_call env =
     Fn ''clf.model_fn_builder'' []
       [(''bert_config'', ObjV (bert_config env)),
        (''num_labels'', IntV (int (len env (label_list env)))),
        (''init_checkpoint'', StrV init_checkpoint),
        (''learning_rate'', FloatLit ''5e-5''),
        (''num_train_steps'', NoneV),
        (''num_warmup_steps'', NoneV),
        (''use_tpu'', BoolV False),
        (''use_one_hot_embeddings'', BoolV False)]"

definition model_fn :: "'o env \<Rightarrow> 'o" where
  "model_fn env = ret env (model_fn_call env)"

definition is_per_host :: "'o arg" where
  "is_per_host = AttrV ''tf.contrib.tpu.InputPipelineConfig.PER_HOST_V2''"

definition tpu_config_call :: "'o call" where
  "tpu_config_call =
     Fn ''tf.contrib.tpu.TPUConfig'' []
       [(''iterations_per_loop'', IntV 1000),
        (''num_shards'', IntV 8),
        (''per_host_input_for_training'', is_per_host)]"

definition run_config_call :: "'o env \<Rightarrow> 'o call" where
  "run_config_call env =
     Fn ''tf.contrib.tpu.RunConfig'' []
       [(''cluster'', NoneV),
        (''model_dir'', StrV OUTPUT_DIR),
        (''save_checkpoints_steps'', IntV 1000),
        (''tpu_config'', ObjV (ret env tpu_config_call))]"

definition run_config :: "'o env \<Rightarrow> 'o" where
  "run_config env = ret env (run_config_call env)"

definition estimator_call :: "'o env \<Rightarrow> 'o call" where
  "estimator_call env =
     Fn ''tf.contrib.tpu.TPUEstimator'' []
       [(''use_tpu'', BoolV False),
        (''model_fn'', ObjV (model_fn env)),
        (''config'', ObjV (run_config env)),
        (''train_batch_size'', IntV 32),
        (''eval_batch_size'', IntV 8),
        (''predict_batch_size'', IntV 1)]"

definition estimator :: "'o env \<Rightarrow> 'o" where
  "estimator env = ret env (estimator_call env)"

definition classes_call :: "'o call" where
  "classes_call = Fn ''np.genfromtxt'' [StrV classes_txt] [(''dtype'', AttrV ''str'')]"

definition classes :: "'o env \<Rightarrow> 'o" where
  "classes env = ret env classes_call"

subsection \<open>From an utterance to a prediction\<close>

text \<open>
  Cells 17 to 19 and the bodies of both loops hold the same statements, on
  \<^verbatim>\<open>sample_utterance\<close> and on the utterance of a row:
  \<^verbatim>\<open>
  examples = [clf.InputExample(guid=1, text_a=tokenization.convert_to_unicode(utterance))]
  features = clf.convert_examples_to_features(examples, label_list,
                                              max_seq_length=max_seq_length,
                                              tokenizer=tokenizer)
  input_fn = clf.input_fn_builder(features=features, seq_length=max_seq_length,
                                  is_training=False, drop_remainder=False)
  ... estimator.predict(input_fn=input_fn)
  \<close>
\<close>

definition unicode_call :: "string \<Rightarrow> 'o call" where
  "unicode_call text = Fn ''tokenization.convert_to_unicode'' [StrV text] []"

definition example_call :: "'o env \<Rightarrow> string \<Rightarrow> 'o call" where
  "example_call env text =
     Fn ''clf.InputExample'' []
       [(''guid'', IntV 1), (''text_a'', ObjV (ret env (unicode_call text)))]"

definition examples :: "'o env \<Rightarrow> string \<Rightarrow> 'o list" where
  "examples env text = [ret env (example_call env text)]"

definition features_call :: "'o env \<Rightarrow> string \<Rightarrow> 'o call" where
  "features_call env text =
     Fn ''clf.convert_examples_to_features''
       [ListV (examples env text), ObjV (label_list env)]
       [(''max_seq_length'', IntV max_seq_length), (''tokenizer'', ObjV (tokenizer env))]"

definition features :: "'o env \<Rightarrow> string \<Rightarrow> 'o" where
  "features env text = ret env (features_call env text)"

definition input_fn_call :: "'o env \<Rightarrow> string \<Rightarrow> 'o call" where
  "input_fn_call env text =
     Fn ''clf.input_fn_builder'' []
       [(''features'', ObjV (features env text)),
        (''seq_length'', IntV max_seq_length),
        (''is_training'', BoolV False),
        (''drop_remainder'', BoolV False)]"

definition input_fn :: "'o env \<Rightarrow> string \<Rightarrow> 'o" where
  "input_fn env text = ret env (input_fn_call env text)"

definition predict_call :: "'o env \<Rightarrow> string \<Rightarrow> 'o call" where
  "predict_call env text =
     Method ''estimator'' (estimator env) ''predict'' []
       [(''input_fn'', ObjV (input_fn env text))]"

definition to_features :: "'o env \<Rightarrow> string \<Rightarrow> 'o event list" where
  "to_features env text =
     [Called (unicode_call text), Called (example_call env text),
      Called (features_call env text)]"

definition to_prediction :: "'o env \<Rightarrow> string \<Rightarrow> 'o event list" where
  "to_prediction env text =
     to_features env text @
     [Called (input_fn_call env text), Called (predict_call env text)]"

definition result :: "'o env \<Rightarrow> 'o" where
  "result env = ret env (predict_call env sample_utterance)"

subsection \<open>Reading the CSV files (cells 23 and 26)\<close>

text \<open>
  \<^verbatim>\<open>
  val_lines = []
  with tf.gfile.Open(val_csv, 'r') as f:
      reader = csv.reader(f)
      for line in reader:
          val_lines.append(line)
  \<close>
  and the same for \<^verbatim>\<open>test_csv\<close> and \<^verbatim>\<open>test_lines\<close>. The loop runs over the whole
  file, before any slice is taken: the list collects every row that the reader yields. On a
  row that it cannot read (a field larger than the field limit, for instance) the reader
  raises \<^verbatim>\<open>csv.Error\<close>; the cell then stops with that exception, and the run with it.
\<close>

definition open_call :: "string \<Rightarrow> 'o call" where
  "open_call path = Fn ''tf.gfile.Open'' [StrV path, StrV ''r''] []"

definition reader_call :: "'o env \<Rightarrow> string \<Rightarrow> 'o call" where
  "reader_call env path = Fn ''csv.reader'' [ObjV (ret env (open_call path))] []"

definition read_lines :: "'o env \<Rightarrow> string \<Rightarrow> string list list" where
  "read_lines env path = iter_rows env (ret env (reader_call env path))"

definition read_raises :: "'o env \<Rightarrow> string \<Rightarrow> bool" where
  "read_raises env path = iter_raises env (ret env (reader_call env path))"

definition read_csv :: "'o env \<Rightarrow> string \<Rightarrow> 'o nb \<Rightarrow> error option \<times> 'o nb" where
  "read_csv env path s =
     (if read_raises env path then Some CsvError else None,
      emit [Called (open_call path), Called (reader_call env path)] s)"

definition val_lines :: "'o env \<Rightarrow> string list list" where
  "val_lines env = read_lines env val_csv"

definition test_lines :: "'o env \<Rightarrow> string list list" where
  "test_lines env = read_lines env test_csv"

subsection \<open>The validation loop (cell 24)\<close>

text \<open>
  \<^verbatim>\<open>
  for label, utterance in val_lines[:max_api_calls]:
      y_true = int(label)
      y_val.append(y_true)
      examples = ...; features = ...; input_fn = ...
      pred = next(estimator.predict(input_fn=input_fn))
      y_val_pred.append(pred)
      if pred != y_true:
          print('Utterance:', utterance)
          print('Actual   :', classes[int(label)])
          print('Pred     :', classes[int(pred)])
          print(':)' if int(label) == int(pred) else ':(')
          print('')
          incorrect += 1
  \<close>
  Unpacking a row that does not have exactly two fields raises ValueError. Inside the
  \<^verbatim>\<open>if\<close>, \<^verbatim>\<open>int(label)\<close> is the value \<open>y_true\<close> that the same call gave at the top of the
  body, and \<^verbatim>\<open>int(pred)\<close> is \<open>pred\<close>, an integer already.
\<close>

definition status_line :: "int \<Rightarrow> int \<Rightarrow> string" where
  "status_line int_label int_pred = (if int_label = int_pred then '':)'' else '':('')"

definition validation_body :: "'o env \<Rightarrow> string list \<Rightarrow> 'o nb \<Rightarrow> error option \<times> 'o nb" where
  "validation_body env line s =
     (case line of
        [label, utterance] \<Rightarrow>
          (case py_int env label of
             None \<Rightarrow> (Some ValueError, s)
           | Some y_true \<Rightarrow>
               let s1 = s\<lparr>y_val := y_val s @ [y_true]\<rparr>;
                   s2 = emit (to_prediction env utterance) s1
               in (case iter_preds env (ret env (predict_call env utterance)) of
                     [] \<Rightarrow> (Some StopIteration, s2)
                   | pred # _ \<Rightarrow>
                       let s3 = s2\<lparr>y_val_pred := y_val_pred s2 @ [pred]\<rparr> in
                       if pred \<noteq> y_true then
                         let s4 = emit [Print (''Utterance: '' @ utterance)] s3 in
                         (case getitem env (classes env) y_true of
                            None \<Rightarrow> (Some IndexError, s4)
                          | Some actual \<Rightarrow>
                              let s5 = emit [Print (''Actual   : '' @ actual)] s4 in
                              (case getitem env (classes env) pred of
                                 None \<Rightarrow> (Some IndexError, s5)
                               | Some predicted \<Rightarrow>
                                   let s6 = emit [Print (''Pred     : '' @ predicted),
                                                  Print (status_line y_true pred),
                                                  Print []] s5
                                   in (None, s6\<lparr>incorrect := incorrect s6 + 1\<rparr>)))
                       else (None, s3)))
      | _ \<Rightarrow> (Some ValueError, s))"

definition validation_loop :: "'o env \<Rightarrow> string list list \<Rightarrow> 'o nb \<Rightarrow> error option \<times> 'o nb" where
  "validation_loop env lines s = for_loop (validation_body env) (take max_api_calls lines) s"

subsection \<open>The test loop (cell 27)\<close>

text \<open>
  The body of the validation loop without the \<^verbatim>\<open>if\<close> and the counter: every row is
  printed. The slice is \<^verbatim>\<open>test_lines[:200]\<close>.
\<close>

definition test_body :: "'o env \<Rightarrow> string list \<Rightarrow> 'o nb \<Rightarrow> error option \<times> 'o nb" where
  "test_body env line s =
     (case line of
        [label, utterance] \<Rightarrow>
          (case py_int env label of
             None \<Rightarrow> (Some ValueError, s)
           | Some y_true \<Rightarrow>
               let s1 = s\<lparr>y_test := y_test s @ [y_true]\<rparr>;
                   s2 = emit (to_prediction env utterance) s1
               in (case iter_preds env (ret env (predict_call env utterance)) of
                     [] \<Rightarrow> (Some StopIteration, s2)
                   | pred # _ \<Rightarrow>
                       let s3 = s2\<lparr>y_test_pred := y_test_pred s2 @ [pred]\<rparr>;
                           s4 = emit [Print (''Utterance: '' @ utterance)] s3
                       in (case getitem env (classes env) y_true of
                             None \<Rightarrow> (Some IndexError, s4)
                           | Some actual \<Rightarrow>
                               let s5 = emit [Print (''Actual   : '' @ actual)] s4 in
                               (case getitem env (classes env) pred of
                                  None \<Rightarrow> (Some IndexError, s5)
                                | Some predicted \<Rightarrow>
                                    (None, emit [Print (''Pred     : '' @ predicted),
                                                 Print (status_line y_true pred),
                                                 Print []] s5)))))
      | _ \<Rightarrow> (Some ValueError, s))"

definition test_loop :: "'o env \<Rightarrow> string list list \<Rightarrow> 'o nb \<Rightarrow> error option \<times> 'o nb" where
  "test_loop env lines s = for_loop (test_body env) (take 200 lines) s"

subsection \<open>Evaluation through the estimator (cells 29 to 34)\<close>

text \<open>
  \<^verbatim>\<open>
  eval_examples = processor.get_dev_examples(DATA_DIR)
  eval_features = clf.convert_examples_to_features(eval_examples, label_list,
                                                   max_seq_length, tokenizer)
  eval_input_fn = clf.input_fn_builder(features=eval_features, seq_length=max_seq_length,
                                       is_training=False, drop_remainder=False)
  eval_result = estimator.evaluate(input_fn=eval_input_fn, steps=None)
  for key in sorted(eval_result.keys()):
      print('  {} = {}'.format(key, eval_result[key]))
  \<close>
  and the same with \<^verbatim>\<open>get_test_examples\<close>. The functions below take the name of the
  method of the processor.
\<close>

definition examples_call :: "'o env \<Rightarrow> string \<Rightarrow> 'o call" where
  "examples_call env getter = Method ''processor'' (processor env) getter [StrV DATA_DIR] []"

definition set_features_call :: "'o env \<Rightarrow> string \<Rightarrow> 'o call" where
  "set_features_call env getter =
     Fn ''clf.convert_examples_to_features''
       [ObjV (ret env (examples_call env getter)), ObjV (label_list env),
        IntV max_seq_length, ObjV (tokenizer env)] []"

definition set_input_fn_call :: "'o env \<Rightarrow> string \<Rightarrow> 'o call" where
  "set_input_fn_call env getter =
     Fn ''clf.input_fn_builder'' []
       [(''features'', ObjV (ret env (set_features_call env getter))),
        (''seq_length'', IntV max_seq_length),
        (''is_training'', BoolV False),
        (''drop_remainder'', BoolV False)]"

definition evaluate_call :: "'o env \<Rightarrow> string \<Rightarrow> 'o call" where
  "evaluate_call env getter =
     Method ''estimator'' (estimator env) ''evaluate'' []
       [(''input_fn'', ObjV (ret env (set_input_fn_call env getter))), (''steps'', NoneV)]"

definition eval_result :: "'o env \<Rightarrow> 'o" where
  "eval_result env = ret env (evaluate_call env ''get_dev_examples'')"

definition test_result :: "'o env \<Rightarrow> 'o" where
  "test_result env = ret env (evaluate_call env ''get_test_examples'')"

text \<open>
  The keys of a dictionary are distinct, so sorting its items by key visits the sorted
  keys, each with its value. Python orders strings by code point, as the lexicographic
  order on \<open>string\<close> does.
\<close>

definition print_result :: "'o env \<Rightarrow> 'o \<Rightarrow> 'o event list" where
  "print_result env d =
     map (\<lambda>(key, v). Print (''  '' @ key @ '' = '' @ v)) (sort_key fst (dict_items env d))"

subsection \<open>The performance summaries (cells 25 and 28)\<close>

text \<open>
  \<^verbatim>\<open>
  print('Dev set performance:')
  stats = perf_summary(y_val, y_val_pred)
  print_perf_summary(stats, rounded=2)
  \<close>
\<close>

definition stats_call :: "int list \<Rightarrow> int list \<Rightarrow> 'o call" where
  "stats_call y_true y_pred = Fn ''perf_summary'' [IntsV y_true, IntsV y_pred] []"

definition print_stats_call :: "'o env \<Rightarrow> int list \<Rightarrow> int list \<Rightarrow> 'o call" where
  "print_stats_call env y_true y_pred =
     Fn ''print_perf_summary'' [ObjV (ret env (stats_call y_true y_pred))] [(''rounded'', IntV 2)]"

definition summary :: "'o env \<Rightarrow> string \<Rightarrow> int list \<Rightarrow> int list \<Rightarrow> 'o event list" where
  "summary env title y_true y_pred =
     [Print title, Called (stats_call y_true y_pred), Called (print_stats_call env y_true y_pred)]"

subsection \<open>The cells\<close>

text \<open>
  Code cells are numbered by their position in the file. Cells 4, 7, 15, 16 and 20 bind
  the constants above and the last cell, 35, is empty: they leave the state as it is.
\<close>

definition ok :: "'o nb \<Rightarrow> error option \<times> 'o nb" where
  "ok s = (None, s)"

definition cell_01 :: "'o cell" where
  "cell_01 s =
     ok (emit [Import ''csv'', Import ''numpy'', Import ''os'', Import ''sys'',
               Import ''tensorflow''] s)"

definition cell_02 :: "'o cell" where
  "cell_02 s = ok (s\<lparr>sys_path := sys_path s @ [''/Users/d777710/src/bert''] @ [''../..'']\<rparr>)"

definition cell_03 :: "'o cell" where
  "cell_03 s =
     ok (emit [FromImport ''text_classification_benchmarks.metrics''
                 [''perf_summary'', ''print_perf_summary'']] s)"

definition cell_05 :: "'o cell" where
  "cell_05 s = ok (emit [Import ''modeling'', Import ''run_classifier'', Import ''tokenization''] s)"

definition cell_06 :: "'o cell" where
  "cell_06 s = ok (emit [Called (Fn ''tf.logging.set_verbosity'' [AttrV ''tf.logging.FATAL''] [])] s)"

definition cell_08 :: "'o cell" where
  "cell_08 s = ok (emit [Called bert_config_call] s)"

definition cell_09 :: "'o cell" where
  "cell_09 s = ok (emit [Called processor_call] s)"

definition cell_10 :: "'o env \<Rightarrow> 'o cell" where
  "cell_10 env s = ok (emit [Called (label_list_call env)] s)"

definition cell_11 :: "'o cell" where
  "cell_11 s = ok (emit [Called tokenizer_call] s)"

definition cell_12 :: "'o env \<Rightarrow> 'o cell" where
  "cell_12 env s = ok (emit [Called (model_fn_call env)] s)"

definition cell_13 :: "'o env \<Rightarrow> 'o cell" where
  "cell_13 env s = ok (emit [Called tpu_config_call, Called (run_config_call env)] s)"

definition cell_14 :: "'o env \<Rightarrow> 'o cell" where
  "cell_14 env s = ok (emit [Called (estimator_call env)] s)"

definition cell_17 :: "'o env \<Rightarrow> 'o cell" where
  "cell_17 env s = ok (emit (to_features env sample_utterance) s)"

definition cell_18 :: "'o env \<Rightarrow> 'o cell" where
  "cell_18 env s = ok (emit [Called (input_fn_call env sample_utterance)] s)"

definition cell_19 :: "'o env \<Rightarrow> 'o cell" where
  "cell_19 env s = ok (emit [Called (predict_call env sample_utterance)] s)"

definition cell_21 :: "'o cell" where
  "cell_21 s = ok (emit [Called classes_call] s)"

text \<open>
  Cell 22:
  \<^verbatim>\<open>
  for label in result:
      print(classes[label])
  \<close>
\<close>

definition print_class :: "'o env \<Rightarrow> int \<Rightarrow> 'o nb \<Rightarrow> error option \<times> 'o nb" where
  "print_class env label s =
     (case getitem env (classes env) label of
        None \<Rightarrow> (Some IndexError, s)
      | Some name \<Rightarrow> (None, emit [Print name] s))"

definition cell_22 :: "'o env \<Rightarrow> 'o cell" where
  "cell_22 env s = for_loop (print_class env) (iter_preds env (result env)) s"

definition cell_23 :: "'o env \<Rightarrow> 'o cell" where
  "cell_23 env s = read_csv env val_csv s"

definition cell_24 :: "'o env \<Rightarrow> 'o cell" where
  "cell_24 env s =
     validation_loop env (val_lines env) (s\<lparr>y_val := [], y_val_pred := [], incorrect := 0\<rparr>)"

definition cell_25 :: "'o env \<Rightarrow> 'o cell" where
  "cell_25 env s = ok (emit (summary env ''Dev set performance:'' (y_val s) (y_val_pred s)) s)"

definition cell_26 :: "'o env \<Rightarrow> 'o cell" where
  "cell_26 env s = read_csv env test_csv s"

definition cell_27 :: "'o env \<Rightarrow> 'o cell" where
  "cell_27 env s = test_loop env (test_lines env) (s\<lparr>y_test := [], y_test_pred := []\<rparr>)"

definition cell_28 :: "'o env \<Rightarrow> 'o cell" where
  "cell_28 env s = ok (emit (summary env ''Test set performance:'' (y_test s) (y_test_pred s)) s)"

definition cell_29 :: "'o env \<Rightarrow> 'o cell" where
  "cell_29 env s =
     ok (emit [Called (examples_call env ''get_dev_examples''),
               Called (set_features_call env ''get_dev_examples'')] s)"

definition cell_30 :: "'o env \<Rightarrow> 'o cell" where
  "cell_30 env s =
     ok (emit [Called (set_input_fn_call env ''get_dev_examples''),
               Called (evaluate_call env ''get_dev_examples'')] s)"

definition cell_31 :: "'o env \<Rightarrow> 'o cell" where
  "cell_31 env s = ok (emit (print_result env (eval_result env)) s)"

definition cell_32 :: "'o env \<Rightarrow> 'o cell" where
  "cell_32 env s =
     ok (emit [Called (examples_call env ''get_test_examples''),
               Called (set_features_call env ''get_test_examples'')] s)"

definition cell_33 :: "'o env \<Rightarrow> 'o cell" where
  "cell_33 env s =
     ok (emit [Called (set_input_fn_call env ''get_test_examples''),
               Called (evaluate_call env ''get_test_examples'')] s)"

definition cell_34 :: "'o env \<Rightarrow> 'o cell" where
  "cell_34 env s = ok (emit (print_result env (test_result env)) s)"

definition cells :: "'o env \<Rightarrow> 'o cell list" where
  "cells env =
     [cell_01, cell_02, cell_03, ok, cell_05, cell_06, ok, cell_08, cell_09, cell_10 env,
      cell_11, cell_12 env, cell_13 env, cell_14 env, ok, ok, cell_17 env, cell_18 env,
      cell_19 env, ok, cell_21, cell_22 env, cell_23 env, cell_24 env, cell_25 env,
      cell_26 env, cell_27 env, cell_28 env, cell_29 env, cell_30 env, cell_31 env,
      cell_32 env, cell_33 env, cell_34 env, ok]"

text \<open>
  A fresh kernel: nothing appended to \<^verbatim>\<open>sys.path\<close>, nothing traced. The lists and the
  counter are unbound in Python until cells 24 and 27 bind them; here they start empty.
\<close>

definition fresh :: "'o nb" where
  "fresh = \<lparr>sys_path = [], trace = [], y_val = [], y_val_pred = [], incorrect = 0,
            y_test = [], y_test_pred = []\<rparr>"

definition notebook :: "'o env \<Rightarrow> error option \<times> 'o nb" where
  "notebook env = run_cells (cells env) fresh"

section \<open>Notions used in the properties\<close>

subsection \<open>Counting misclassified rows\<close>

text \<open>The number of indices at which the predicted labels differ from the true ones.\<close>

definition mismatches :: "int list \<Rightarrow> int list \<Rightarrow> nat" where
  "mismatches y_pred y_true = length (filter (\<lambda>i. y_pred ! i \<noteq> y_true ! i) [0..<length y_pred])"

definition counted :: "'o nb \<Rightarrow> bool" where
  "counted s \<longleftrightarrow> length (y_val s) = length (y_val_pred s) \<and>
     incorrect s = int (mismatches (y_val_pred s) (y_val s))"

subsection \<open>What a step of the notebook prints\<close>

text \<open>
  The lines printed in a trace, and the lines printed between a state and a later one.
  \<open>mistaken\<close> says of a row that the body of the validation loop reaches its test
  \<^verbatim>\<open>pred != y_true\<close> on it and that the test holds.
\<close>

fun line_of :: "'o event \<Rightarrow> string list" where
  "line_of (Print l) = [l]"
| "line_of _ = []"

definition printed :: "'o event list \<Rightarrow> string list" where
  "printed tr = concat (map line_of tr)"

definition new_output :: "'o nb \<Rightarrow> 'o nb \<Rightarrow> string list" where
  "new_output s s' = printed (drop (length (trace s)) (trace s'))"

definition mistaken :: "'o env \<Rightarrow> string list \<Rightarrow> bool" where
  "mistaken env line =
     (case line of
        [label, utterance] \<Rightarrow>
          (case py_int env label of
             None \<Rightarrow> False
           | Some y_true \<Rightarrow>
               (case iter_preds env (ret env (predict_call env utterance)) of
                  [] \<Rightarrow> False
                | pred # _ \<Rightarrow> pred \<noteq> y_true))
      | _ \<Rightarrow> False)"

subsection \<open>The performance summaries and the bound of the slices\<close>

fun is_summary :: "'o event \<Rightarrow> bool" where
  "is_summary (Called (Fn f args kw)) = (f = ''perf_summary'' \<or> f = ''print_perf_summary'')"
| "is_summary _ = False"

definition summaries :: "'o event list \<Rightarrow> 'o event list" where
  "summaries tr = filter is_summary tr"



subsection \<open>A small environment to run the notebook on\<close>

text \<open>
  Objects are strings. The calls that lead from an utterance to the generator of
  predictions hand the utterance on, every other call returns the name of its callee.
  The classifier answers class 0 for one utterance and class 1 for every other one; the
  CSV files hold three rows, the second of which is then misclassified.
\<close>

definition demo_ret :: "string call \<Rightarrow> string" where
  "demo_ret c =
     (case c of
        Fn f args kw \<Rightarrow>
          (if f = ''tokenization.convert_to_unicode'' then (case args of [StrV text] \<Rightarrow> text | _ \<Rightarrow> f)
           else if f = ''clf.InputExample'' then (case kw of [_, (_, ObjV text)] \<Rightarrow> text | _ \<Rightarrow> f)
           else if f = ''clf.convert_examples_to_features'' then (case args of ListV [ex] # _ \<Rightarrow> ex | _ \<Rightarrow> f)
           else if f = ''clf.input_fn_builder'' then (case kw of (_, ObjV x) # _ \<Rightarrow> x | _ \<Rightarrow> f)
           else f)
      | Method v obj m args kw \<Rightarrow>
          (if m = ''predict'' then (case kw of [(_, ObjV x)] \<Rightarrow> x | _ \<Rightarrow> m) else v @ ''.'' @ m))"

definition demo_rows :: "string list list" where
  "demo_rows = [[''0'', ''when is my bill due''], [''0'', ''how much data is left''],
                [''1'', ''upgrade my plan'']]"

definition demo :: "string env" where
  "demo = \<lparr>ret = demo_ret,
           py_int = (\<lambda>s. if s = ''0'' then Some 0 else if s = ''1'' then Some 1 else None),
           len = (\<lambda>_. 2),
           iter_rows = (\<lambda>_. demo_rows),
           iter_raises = (\<lambda>_. False),
           iter_preds = (\<lambda>g. if g = ''when is my bill due'' then [0] else [1]),
           getitem = (\<lambda>_ i. if i = 0 then Some ''billing'' else if i = 1 then Some ''plan'' else None),
           dict_items = (\<lambda>_. [(''loss'', ''2.05''), (''eval_accuracy'', ''0.72'')])\<rparr>"

text \<open>The state after the first two iterations of the validation loop on these rows.\<close>

definition demo_after_two :: "string nb" where
  "demo_after_two =
     snd (for_loop (validation_body demo) (take 2 (take max_api_calls demo_rows))
            (fresh\<lparr>y_val := [], y_val_pred := [], incorrect := 0\<rparr>))"




subsection \<open>The shape of the trace\<close>

text \<open>
  Cells 1 to 21 hold no loop and no statement of the notebook that can raise: they always
  run through and leave the trace \<open>setup_trace\<close>. The events that the later cells can
  append are the set \<open>later_events\<close>; \<open>appends A s s'\<close> says that \<open>s'\<close> extends the
  trace of \<open>s\<close> by events of \<open>A\<close> and has the same \<^verbatim>\<open>sys.path\<close>.
\<close>

definition setup_trace :: "'o env \<Rightarrow> 'o event list" where
  "setup_trace env =
     [Import ''csv'', Import ''numpy'', Import ''os'', Import ''sys'', Import ''tensorflow'',
      FromImport ''text_classification_benchmarks.metrics'' [''perf_summary'', ''print_perf_summary''],
      Import ''modeling'', Import ''run_classifier'', Import ''tokenization'',
      Called (Fn ''tf.logging.set_verbosity'' [AttrV ''tf.logging.FATAL''] []),
      Called bert_config_call, Called processor_call, Called (label_list_call env),
      Called tokenizer_call, Called (model_fn_call env), Called tpu_config_call,
      Called (run_config_call env), Called (estimator_call env)] @
     to_prediction env sample_utterance @ [Called classes_call]"

definition after_setup :: "'o env \<Rightarrow> 'o nb" where
  "after_setup env = fresh\<lparr>sys_path := [''/Users/d777710/src/bert'', ''../..''],
                            trace := setup_trace env\<rparr>"

definition later_cells :: "'o env \<Rightarrow> 'o cell list" where
  "later_cells env =
     [cell_22 env, cell_23 env, cell_24 env, cell_25 env,
      cell_26 env, cell_27 env, cell_28 env, cell_29 env, cell_30 env, cell_31 env,
      cell_32 env, cell_33 env, cell_34 env, ok]"

definition getter :: "string \<Rightarrow> bool" where
  "getter g \<longleftrightarrow> g = ''get_dev_examples'' \<or> g = ''get_test_examples''"

inductive_set later_events :: "'o env \<Rightarrow> 'o event set" for env :: "'o env" where
    prints: "Print l \<in> later_events env"
  | predicts: "e \<in> set (to_prediction env u) \<Longrightarrow> e \<in> later_events env"
  | opens: "p = val_csv \<or> p = test_csv \<Longrightarrow> Called (open_call p) \<in> later_events env"
  | reads: "p = val_csv \<or> p = test_csv \<Longrightarrow> Called (reader_call env p) \<in> later_events env"
  | stats: "Called (stats_call a b) \<in> later_events env"
  | print_stats: "Called (print_stats_call env a b) \<in> later_events env"
  | gets: "getter g \<Longrightarrow> Called (examples_call env g) \<in> later_events env"
  | converts: "getter g \<Longrightarrow> Called (set_features_call env g) \<in> later_events env"
  | inputs: "getter g \<Longrightarrow> Called (set_input_fn_call env g) \<in> later_events env"
  | evaluates: "getter g \<Longrightarrow> Called (evaluate_call env g) \<in> later_events env"

definition appends :: "'o event set \<Rightarrow> 'o nb \<Rightarrow> 'o nb \<Rightarrow> bool" where
  "appends A s s' \<longleftrightarrow> (\<exists>new. trace s' = trace s @ new \<and> set new \<subseteq> A) \<and> sys_path s' = sys_path s"

subsection \<open>Modules imported and files opened\<close>

text \<open>
  The module an event imports, and the file an event opens: the notebook's own code opens
  files with \<^verbatim>\<open>tf.gfile.Open\<close> and \<^verbatim>\<open>np.genfromtxt\<close>, the path being the first
  argument.
\<close>

fun imported :: "'o event \<Rightarrow> string list" where
  "imported (Import m) = [m]"
| "imported (FromImport m names) = [m]"
| "imported _ = []"

fun opened :: "'o event \<Rightarrow> string list" where
  "opened (Called (Fn f (StrV path # args) kw)) =
     (if f = ''tf.gfile.Open'' \<or> f = ''np.genfromtxt'' then [path] else [])"
| "opened _ = []"

definition imported_modules :: "'o nb \<Rightarrow> string list" where
  "imported_modules s = concat (map imported (trace s))"

definition opened_files :: "'o nb \<Rightarrow> string list" where
  "opened_files s = concat (map opened (trace s))"

text \<open>
  The specification calls every subdirectory an independent, self-contained example. In
  its words, for the notebook, which lies in
  \<^verbatim>\<open>src/text_classification_benchmarks/notebooks\<close>: no module of the repository's package
  \<^verbatim>\<open>text_classification_benchmarks\<close> is imported, and no file is opened through a path
  that leaves the directory of the notebook.
\<close>

definition repository_module :: "string \<Rightarrow> bool" where
  "repository_module m \<longleftrightarrow> takeWhile (\<lambda>c. c \<noteq> CHR ''.'') m = ''text_classification_benchmarks''"

definition leaves_directory :: "string \<Rightarrow> bool" where
  "leaves_directory path \<longleftrightarrow> take 3 path = ''../''"

definition self_contained :: "'o nb \<Rightarrow> bool" where
  "self_contained s \<longleftrightarrow>
     list_all (\<lambda>e. list_all (\<lambda>m. \<not> repository_module m) (imported e) \<and>
                   list_all (\<lambda>p. \<not> leaves_directory p) (opened e)) (trace s)"

subsection \<open>Kinds of processing steps\<close>

text \<open>
  The specification names five kinds of steps. Each call of the notebook is given its
  kind: loading the configuration (\<^verbatim>\<open>BertConfig.from_json_file\<close>); building the model and
  the estimator (\<^verbatim>\<open>model_fn_builder\<close>, \<^verbatim>\<open>TPUConfig\<close>, \<^verbatim>\<open>RunConfig\<close>,
  \<^verbatim>\<open>TPUEstimator\<close>); converting text into features (\<^verbatim>\<open>convert_to_unicode\<close>,
  \<^verbatim>\<open>InputExample\<close>, \<^verbatim>\<open>convert_examples_to_features\<close>, \<^verbatim>\<open>input_fn_builder\<close>);
  predicting and evaluating (the two methods of the estimator); printing (\<^verbatim>\<open>print\<close> and
  \<^verbatim>\<open>print_perf_summary\<close>). Every other call is of kind \<open>Other\<close>: setting the log
  level, creating the CSV processor and the tokenizer, asking the processor for labels and
  examples, loading the class names, opening and reading the CSV files, and computing a
  performance summary with \<^verbatim>\<open>perf_summary\<close>. An import is no step.
\<close>

datatype step = LoadConfig | BuildModel | ConvertText | PredictEvaluate | PrintMetrics | Other

fun step_of :: "'o event \<Rightarrow> step list" where
  "step_of (Import m) = []"
| "step_of (FromImport m names) = []"
| "step_of (Print l) = [PrintMetrics]"
| "step_of (SetAttr obj name v) = [Other]"
| "step_of (Called (Method v obj m args kw)) =
     (if v = ''estimator'' \<and> (m = ''predict'' \<or> m = ''evaluate'') then [PredictEvaluate]
      else [Other])"
| "step_of (Called (Fn f args kw)) =
     (if f = ''modeling.BertConfig.from_json_file'' then [LoadConfig]
      else if f \<in> {''clf.model_fn_builder'', ''tf.contrib.tpu.TPUConfig'',
                     ''tf.contrib.tpu.RunConfig'', ''tf.contrib.tpu.TPUEstimator''}
        then [BuildModel]
      else if f \<in> {''tokenization.convert_to_unicode'', ''clf.InputExample'',
                     ''clf.convert_examples_to_features'', ''clf.input_fn_builder''}
        then [ConvertText]
      else if f = ''print_perf_summary'' then [PrintMetrics]
      else [Other])"

definition steps :: "'o nb \<Rightarrow> step list" where
  "steps s = concat (map step_of (trace s))"

text \<open>
  The claim in the words of the specification: the steps come as the five kinds in the
  order in which the specification lists them, one kind after the other (\<open>in_order\<close>),
  and no step is of another kind (\<open>nothing_else\<close>).
\<close>

fun rank :: "step \<Rightarrow> nat" where
  "rank LoadConfig = 0"
| "rank BuildModel = 1"
| "rank ConvertText = 2"
| "rank PredictEvaluate = 3"
| "rank PrintMetrics = 4"
| "rank Other = 5"

definition in_order :: "'o nb \<Rightarrow> bool" where
  "in_order s \<longleftrightarrow> sorted (map rank (filter (\<lambda>k. k \<noteq> Other) (steps s)))"

definition nothing_else :: "'o nb \<Rightarrow> bool" where
  "nothing_else s \<longleftrightarrow> Other \<notin> set (steps s)"

definition as_claimed :: "'o nb \<Rightarrow> bool" where
  "as_claimed s \<longleftrightarrow> in_order s \<and> nothing_else s"

text \<open>
  The sequence length of a conversion is 128: \<^verbatim>\<open>convert_examples_to_features\<close> gets it
  as the keyword \<^verbatim>\<open>max_seq_length\<close> or as its third positional argument,
  \<^verbatim>\<open>input_fn_builder\<close> as the keyword \<^verbatim>\<open>seq_length\<close>.
\<close>

fun fixed_shape :: "'o event \<Rightarrow> bool" where
  "fixed_shape (Called (Fn f args kw)) =
     ((f = ''clf.convert_examples_to_features'' \<longrightarrow>
         map_of kw ''max_seq_length'' = Some (IntV 128) \<or> (length args = 4 \<and> args ! 2 = IntV 128)) \<and>
      (f = ''clf.input_fn_builder'' \<longrightarrow> map_of kw ''seq_length'' = Some (IntV 128)))"
| "fixed_shape _ = True"

text \<open>The kinds of the steps of cells 1 to 21.\<close>

definition setup_steps :: "step list" where
  "setup_steps =
     [Other, LoadConfig, Other, Other, Other, BuildModel, BuildModel, BuildModel, BuildModel,
      ConvertText, ConvertText, ConvertText, ConvertText, PredictEvaluate, Other]"

subsection \<open>Using the estimator\<close>








section \<open>Properties of the loops\<close>

lemmas cell_defs =
  cell_01_def cell_02_def cell_03_def cell_05_def cell_06_def cell_08_def cell_09_def
  cell_10_def cell_11_def cell_12_def cell_13_def cell_14_def cell_17_def cell_18_def
  cell_19_def cell_21_def cell_23_def cell_25_def cell_26_def cell_28_def cell_29_def
  cell_30_def cell_31_def cell_32_def cell_33_def cell_34_def read_csv_def

lemmas binding_defs =
  bert_config_def processor_def label_list_call_def label_list_def tokenizer_def
  model_fn_call_def model_fn_def run_config_call_def run_config_def estimator_call_def
  estimator_def classes_def example_call_def examples_def features_call_def features_def
  input_fn_call_def input_fn_def predict_call_def to_features_def to_prediction_def result_def
  reader_call_def examples_call_def set_features_call_def set_input_fn_call_def
  evaluate_call_def eval_result_def test_result_def print_result_def print_stats_call_def
  summary_def

lemmas demo_simps = demo_def demo_ret_def demo_rows_def validation_loop_def validation_body_def
  emit_def to_prediction_def to_features_def predict_call_def input_fn_call_def input_fn_def
  features_call_def features_def examples_def example_call_def unicode_call_def max_api_calls_def
  status_line_def Let_def

subsection \<open>The counter of the validation loop\<close>

lemma mismatches_snoc:
  "length ps = length ts \<Longrightarrow>
   mismatches (ps @ [p]) (ts @ [t]) = mismatches ps ts + (if p \<noteq> t then 1 else 0)"
  unfolding mismatches_def
  by (auto simp: nth_append intro!: arg_cong[where f=length] filter_cong)

lemma validation_body_counted:
  "counted s \<Longrightarrow> validation_body env line s = (None, s') \<Longrightarrow>
   counted s' \<and> length (y_val s') = Suc (length (y_val s))"
  unfolding counted_def validation_body_def
  by (auto simp: emit_def Let_def mismatches_snoc split: list.splits option.splits if_splits)

lemma for_loop_validation_counted:
  "counted s \<Longrightarrow> for_loop (validation_body env) xs s = (None, s') \<Longrightarrow>
   counted s' \<and> length (y_val s') = length (y_val s) + length xs"
proof (induction xs arbitrary: s)
  case Nil
  then show ?case by simp
next
  case (Cons x xs)
  obtain e s1 where b: "validation_body env x s = (e, s1)" by (cases "validation_body env x s")
  with Cons.prems(2) have e: "e = None" and r: "for_loop (validation_body env) xs s1 = (None, s')"
    by (auto split: option.splits)
  from validation_body_counted[OF Cons.prems(1) b[unfolded e]]
  have "counted s1" and l: "length (y_val s1) = Suc (length (y_val s))" by auto
  from Cons.IH[OF this(1) r] l show ?case by simp
qed

text \<open>
  C8. The state after \<open>k\<close> iterations of the validation loop is the state in which the
  loop leaves the first \<open>k\<close> rows of its slice; with \<open>k = max_api_calls\<close> it is the
  state at the exit of the loop. Whenever these iterations have run through, starting from
  the empty lists and the zero counter that cell 24 sets up, \<^verbatim>\<open>y_val\<close> and
  \<^verbatim>\<open>y_val_pred\<close> have the same length, which is the number of rows processed, and
  \<^verbatim>\<open>incorrect\<close> is the number of indices at which \<^verbatim>\<open>y_val_pred\<close> differs from
  \<^verbatim>\<open>y_val\<close>.
\<close>

theorem validation_loop_counts_mistakes:
  assumes "for_loop (validation_body env) (take k (take max_api_calls lines))
             (s\<lparr>y_val := [], y_val_pred := [], incorrect := 0\<rparr>) = (None, s')"
  shows "length (y_val s') = length (y_val_pred s') \<and>
         incorrect s' = int (mismatches (y_val_pred s') (y_val s')) \<and>
         length (y_val s') = min k (min max_api_calls (length lines))"
proof -
  have "counted (s\<lparr>y_val := [], y_val_pred := [], incorrect := 0\<rparr>)"
    by (simp add: counted_def mismatches_def)
  from for_loop_validation_counted[OF this assms]
  show ?thesis by (auto simp: counted_def)
qed

lemma demo_two_rows:
  "for_loop (validation_body demo) (take 2 (take max_api_calls demo_rows))
     (fresh\<lparr>y_val := [], y_val_pred := [], incorrect := 0\<rparr>) = (None, demo_after_two)"
  unfolding demo_after_two_def
  by (simp add: demo_simps fresh_def classes_def classes_call_def)

theorem validation_loop_counts_mistakes_witness:
  "y_val demo_after_two = [0, 0] \<and> y_val_pred demo_after_two = [0, 1] \<and>
   length (y_val demo_after_two) = length (y_val_pred demo_after_two) \<and>
   incorrect demo_after_two = int (mismatches (y_val_pred demo_after_two) (y_val demo_after_two)) \<and>
   length (y_val demo_after_two) = min 2 (min max_api_calls (length demo_rows))"
proof -
  have "y_val demo_after_two = [0, 0]" "y_val_pred demo_after_two = [0, 1]"
    unfolding demo_after_two_def
    by (simp_all add: demo_simps fresh_def classes_def classes_call_def)
  with validation_loop_counts_mistakes[OF demo_two_rows] show ?thesis by simp
qed

subsection \<open>What the validation loop prints\<close>

lemma printed_to_prediction [simp]: "printed (to_prediction env u) = []"
  by (simp add: printed_def to_prediction_def to_features_def)

lemma printed_append [simp]: "printed (a @ b) = printed a @ printed b"
  by (simp add: printed_def)

lemma printed_Print [simp]: "printed (Print l # tr) = l # printed tr"
  by (simp add: printed_def)

lemma printed_Nil [simp]: "printed [] = []"
  by (simp add: printed_def)

lemma validation_body_output:
  assumes "validation_body env line s = (e, s')"
  shows "(new_output s s' \<noteq> [] \<longleftrightarrow> mistaken env line) \<and>
         '':)'' \<notin> set (new_output s s') \<and>
         (mistaken env line \<longrightarrow> hd (new_output s s') = ''Utterance: '' @ line ! 1) \<and>
         (mistaken env line \<and> e = None \<longrightarrow>
            (\<exists>a p. new_output s s' =
               [''Utterance: '' @ line ! 1, ''Actual   : '' @ a, ''Pred     : '' @ p, '':('', '''']))"
  using assms unfolding validation_body_def mistaken_def new_output_def
  by (auto simp: emit_def Let_def status_line_def split: list.splits option.splits if_splits)

lemma validation_body_trace:
  "validation_body env line s = (e, s') \<Longrightarrow>
   \<exists>new. trace s' = trace s @ new \<and> '':)'' \<notin> set (printed new)"
  unfolding validation_body_def
  by (auto simp: emit_def Let_def status_line_def split: list.splits option.splits if_splits)

lemma for_loop_validation_trace:
  "for_loop (validation_body env) xs s = (e, s') \<Longrightarrow>
   \<exists>new. trace s' = trace s @ new \<and> '':)'' \<notin> set (printed new)"
proof (induction xs arbitrary: s)
  case Nil
  then show ?case by simp
next
  case (Cons x xs)
  obtain e1 s1 where b: "validation_body env x s = (e1, s1)" by (cases "validation_body env x s")
  from validation_body_trace[OF b] obtain n1
    where n1: "trace s1 = trace s @ n1" "'':)'' \<notin> set (printed n1)" by blast
  show ?case
  proof (cases e1)
    case None
    with Cons.prems b have "for_loop (validation_body env) xs s1 = (e, s')" by simp
    from Cons.IH[OF this] obtain n2
      where "trace s' = trace s1 @ n2" "'':)'' \<notin> set (printed n2)" by blast
    with n1 have "trace s' = trace s @ (n1 @ n2) \<and> '':)'' \<notin> set (printed (n1 @ n2))" by simp
    then show ?thesis by blast
  next
    case (Some err)
    with Cons.prems b have "s' = s1" by simp
    with n1 show ?thesis by blast
  qed
qed

text \<open>
  C9. One run of the body of the validation loop, on any row and from any state, prints
  something if and only if the row yields a prediction that differs from its true label.
  It then starts with the line of the utterance, and when the body runs through it prints
  exactly the five lines of the \<^verbatim>\<open>if\<close> block, the status line being \<^verbatim>\<open>:(\<close>. The
  whole loop never prints \<^verbatim>\<open>:)\<close>: that branch of the conditional expression is
  unreachable.
\<close>

theorem validation_prints_only_mistakes:
  "(\<forall>line s e s'. validation_body env line s = (e, s') \<longrightarrow>
      (new_output s s' \<noteq> [] \<longleftrightarrow> mistaken env line) \<and>
      (mistaken env line \<longrightarrow> hd (new_output s s') = ''Utterance: '' @ line ! 1) \<and>
      (mistaken env line \<and> e = None \<longrightarrow>
         (\<exists>a p. new_output s s' =
            [''Utterance: '' @ line ! 1, ''Actual   : '' @ a, ''Pred     : '' @ p, '':('', '''']))) \<and>
   (\<forall>lines s e s'. validation_loop env lines s = (e, s') \<longrightarrow> '':)'' \<notin> set (new_output s s'))"
proof (intro conjI allI impI)
  fix lines s e s'
  assume "validation_loop env lines s = (e, s')"
  then obtain new where "trace s' = trace s @ new" "'':)'' \<notin> set (printed new)"
    unfolding validation_loop_def using for_loop_validation_trace by blast
  then show "'':)'' \<notin> set (new_output s s')" by (simp add: new_output_def)
qed (use validation_body_output in blast)+


lemma demo_second_row:
  "validation_body demo [''0'', ''how much data is left''] fresh =
     (None, fresh\<lparr>trace := to_prediction demo ''how much data is left'' @
                     [Print ''Utterance: how much data is left'', Print ''Actual   : billing'',
                      Print ''Pred     : plan'', Print '':('', Print ''''],
                   y_val := [0], y_val_pred := [1], incorrect := 1\<rparr>)"
  by (simp add: demo_simps fresh_def classes_def)

theorem validation_prints_only_mistakes_witness:
  "mistaken demo [''0'', ''how much data is left''] \<and>
   new_output fresh (snd (validation_body demo [''0'', ''how much data is left''] fresh)) =
     [''Utterance: how much data is left'', ''Actual   : billing'', ''Pred     : plan'',
      '':('', ''''] \<and>
   \<not> mistaken demo [''0'', ''when is my bill due''] \<and>
   new_output fresh (snd (validation_body demo [''0'', ''when is my bill due''] fresh)) = [] \<and>
   '':)'' \<notin> set (new_output fresh (snd (validation_loop demo demo_rows fresh)))"
proof -
  note t = validation_prints_only_mistakes[of demo]
  from t have body: "\<And>line s e s'. validation_body demo line s = (e, s') \<Longrightarrow>
      (new_output s s' \<noteq> [] \<longleftrightarrow> mistaken demo line)" by blast
  from t have loop: "\<And>lines s e s'. validation_loop demo lines s = (e, s') \<Longrightarrow>
      '':)'' \<notin> set (new_output s s')" by blast
  have l: "'':)'' \<notin> set (new_output fresh (snd (validation_loop demo demo_rows fresh)))"
    by (rule loop[of demo_rows fresh "fst (validation_loop demo demo_rows fresh)"]) simp
  have m: "\<not> mistaken demo [''0'', ''when is my bill due'']"
    "mistaken demo [''0'', ''how much data is left'']"
    by (simp_all add: mistaken_def demo_def demo_ret_def predict_call_def input_fn_def
        input_fn_call_def features_def features_call_def examples_def example_call_def
        unicode_call_def)
  have q: "new_output fresh (snd (validation_body demo [''0'', ''when is my bill due''] fresh)) = []"
    using body[of "[''0'', ''when is my bill due'']" fresh
        "fst (validation_body demo [''0'', ''when is my bill due''] fresh)"
        "snd (validation_body demo [''0'', ''when is my bill due''] fresh)"] m(1)
    by simp
  have p: "new_output fresh (snd (validation_body demo [''0'', ''how much data is left''] fresh)) =
     [''Utterance: how much data is left'', ''Actual   : billing'', ''Pred     : plan'',
      '':('', '''']"
    unfolding demo_second_row new_output_def by (simp add: fresh_def)
  from l m q p show ?thesis by blast
qed

subsection \<open>The slices of the two loops\<close>

lemma bindings_rows [simp]:
  "label_list_call (env\<lparr>iter_rows := f\<rparr>) = label_list_call env"
  "model_fn_call (env\<lparr>iter_rows := f\<rparr>) = model_fn_call env"
  "run_config_call (env\<lparr>iter_rows := f\<rparr>) = run_config_call env"
  "estimator_call (env\<lparr>iter_rows := f\<rparr>) = estimator_call env"
  "classes (env\<lparr>iter_rows := f\<rparr>) = classes env"
  "result (env\<lparr>iter_rows := f\<rparr>) = result env"
  "input_fn_call (env\<lparr>iter_rows := f\<rparr>) u = input_fn_call env u"
  "predict_call (env\<lparr>iter_rows := f\<rparr>) u = predict_call env u"
  "to_features (env\<lparr>iter_rows := f\<rparr>) u = to_features env u"
  "to_prediction (env\<lparr>iter_rows := f\<rparr>) u = to_prediction env u"
  "reader_call (env\<lparr>iter_rows := f\<rparr>) p = reader_call env p"
  "examples_call (env\<lparr>iter_rows := f\<rparr>) g = examples_call env g"
  "set_features_call (env\<lparr>iter_rows := f\<rparr>) g = set_features_call env g"
  "set_input_fn_call (env\<lparr>iter_rows := f\<rparr>) g = set_input_fn_call env g"
  "evaluate_call (env\<lparr>iter_rows := f\<rparr>) g = evaluate_call env g"
  "print_result (env\<lparr>iter_rows := f\<rparr>) d = print_result env d"
  "eval_result (env\<lparr>iter_rows := f\<rparr>) = eval_result env"
  "test_result (env\<lparr>iter_rows := f\<rparr>) = test_result env"
  "summary (env\<lparr>iter_rows := f\<rparr>) t a b = summary env t a b"
  "read_raises (env\<lparr>iter_rows := f\<rparr>) p = read_raises env p"
  by (simp_all add: binding_defs read_raises_def)

lemma print_class_rows [simp]:
  "print_class (env\<lparr>iter_rows := f\<rparr>) = print_class env"
  by (intro ext) (simp add: print_class_def cong: option.case_cong)

lemma validation_body_rows [simp]:
  "validation_body (env\<lparr>iter_rows := f\<rparr>) = validation_body env"
  by (intro ext) (simp add: validation_body_def Let_def cong: list.case_cong option.case_cong if_cong)

lemma test_body_rows [simp]:
  "test_body (env\<lparr>iter_rows := f\<rparr>) = test_body env"
  by (intro ext) (simp add: test_body_def Let_def cong: list.case_cong option.case_cong if_cong)



lemma run_cells_invariant:
  assumes "run_cells cs s = (e, s')" and "P s"
    and "\<And>c s e s'. c \<in> set cs \<Longrightarrow> P s \<Longrightarrow> c s = (e, s') \<Longrightarrow> P s'"
  shows "P s'"
  using assms
proof (induction cs arbitrary: s)
  case Nil
  then show ?case by simp
next
  case (Cons c cs)
  obtain e1 s1 where c: "c s = (e1, s1)" by (cases "c s")
  have p1: "P s1" using Cons.prems(2,3) c by (meson list.set_intros(1))
  show ?case
  proof (cases e1)
    case None
    with Cons.prems(1) c have "run_cells cs s1 = (e, s')" by simp
    from Cons.IH[OF this p1] Cons.prems(3) show ?thesis by (meson list.set_intros(2))
  next
    case (Some err)
    with Cons.prems(1) c p1 show ?thesis by simp
  qed
qed



lemma test_body_lengths:
  "test_body env x s = (e, s') \<Longrightarrow>
   length (y_test s') \<le> Suc (length (y_test s)) \<and>
   length (y_test_pred s') \<le> Suc (length (y_test_pred s)) \<and>
   y_val s' = y_val s \<and> y_val_pred s' = y_val_pred s"
  unfolding test_body_def
  by (auto simp: emit_def Let_def split: list.splits option.splits if_splits)

lemma for_loop_test_lengths:
  "for_loop (test_body env) xs s = (e, s') \<Longrightarrow>
   length (y_test s') \<le> length (y_test s) + length xs \<and>
   length (y_test_pred s') \<le> length (y_test_pred s) + length xs \<and>
   y_val s' = y_val s \<and> y_val_pred s' = y_val_pred s"
proof (induction xs arbitrary: s)
  case Nil
  then show ?case by simp
next
  case (Cons x xs)
  obtain e1 s1 where b: "test_body env x s = (e1, s1)" by (cases "test_body env x s")
  note l = test_body_lengths[OF b]
  show ?case
  proof (cases e1)
    case None
    with Cons.prems b have "for_loop (test_body env) xs s1 = (e, s')" by simp
    from Cons.IH[OF this] l show ?thesis by simp
  next
    case (Some err)
    with Cons.prems b l show ?thesis by auto
  qed
qed




section \<open>The trace of a run\<close>

lemma run_cells_append:
  "run_cells (cs @ ds) s =
     (case run_cells cs s of (None, s') \<Rightarrow> run_cells ds s' | (Some e, s') \<Rightarrow> (Some e, s'))"
  by (induction cs arbitrary: s) (auto split: prod.splits option.splits)

lemma setup_cells:
  "run_cells [cell_01, cell_02, cell_03, ok, cell_05, cell_06, ok, cell_08, cell_09, cell_10 env,
      cell_11, cell_12 env, cell_13 env, cell_14 env, ok, ok, cell_17 env, cell_18 env,
      cell_19 env, ok, cell_21] fresh = (None, after_setup env)"
  by (simp add: cell_defs ok_def emit_def fresh_def after_setup_def setup_trace_def
      to_prediction_def to_features_def)

lemma notebook_later: "notebook env = run_cells (later_cells env) (after_setup env)"
proof -
  have "cells env = [cell_01, cell_02, cell_03, ok, cell_05, cell_06, ok, cell_08, cell_09,
      cell_10 env, cell_11, cell_12 env, cell_13 env, cell_14 env, ok, ok, cell_17 env,
      cell_18 env, cell_19 env, ok, cell_21] @ later_cells env"
    by (simp add: cells_def later_cells_def)
  then show ?thesis
    by (simp only: notebook_def run_cells_append setup_cells) simp
qed

lemma appends_refl [simp]: "appends A s s"
  by (simp add: appends_def)

lemma appends_trans: "appends A s s1 \<Longrightarrow> appends A s1 s2 \<Longrightarrow> appends A s s2"
  by (auto simp: appends_def)

lemma appends_mono: "appends A s s' \<Longrightarrow> X \<in> set (trace s) \<Longrightarrow> X \<in> set (trace s')"
  by (auto simp: appends_def)

lemma run_cells_appends:
  assumes "\<forall>c\<in>set cs. \<forall>s e s'. c s = (e, s') \<longrightarrow> appends A s s'"
    and "run_cells cs s = (e, s')"
  shows "appends A s s'"
  using assms
proof (induction cs arbitrary: s)
  case Nil
  then show ?case by simp
next
  case (Cons c cs)
  obtain e1 s1 where c: "c s = (e1, s1)" by (cases "c s")
  have a1: "appends A s s1" using Cons.prems(1) c by simp
  show ?case
  proof (cases e1)
    case None
    with Cons.prems(2) c have "run_cells cs s1 = (e, s')" by simp
    then have "appends A s1 s'" using Cons.IH Cons.prems(1) by simp
    with a1 show ?thesis by (rule appends_trans)
  next
    case (Some err)
    with Cons.prems(2) c a1 show ?thesis by simp
  qed
qed

lemma for_loop_appends:
  assumes "\<forall>x s e s'. body x s = (e, s') \<longrightarrow> appends A s s'"
    and "for_loop body xs s = (e, s')"
  shows "appends A s s'"
  using assms(2)
proof (induction xs arbitrary: s)
  case Nil
  then show ?case by simp
next
  case (Cons x xs)
  obtain e1 s1 where b: "body x s = (e1, s1)" by (cases "body x s")
  have a1: "appends A s s1" using assms(1) b by blast
  show ?case
  proof (cases e1)
    case None
    with Cons.prems b have "for_loop body xs s1 = (e, s')" by simp
    then have "appends A s1 s'" by (rule Cons.IH)
    with a1 show ?thesis by (rule appends_trans)
  next
    case (Some err)
    with Cons.prems b a1 show ?thesis by simp
  qed
qed

lemma to_prediction_later: "set (to_prediction env u) \<subseteq> later_events env"
  by (auto intro: later_events.predicts)

lemma later_intros:
  "Called (stats_call a b) \<in> later_events env"
  "Called (print_stats_call env a b) \<in> later_events env"
  "Called (open_call val_csv) \<in> later_events env"
  "Called (reader_call env val_csv) \<in> later_events env"
  "Called (open_call test_csv) \<in> later_events env"
  "Called (reader_call env test_csv) \<in> later_events env"
  "Called (examples_call env ''get_dev_examples'') \<in> later_events env"
  "Called (set_features_call env ''get_dev_examples'') \<in> later_events env"
  "Called (set_input_fn_call env ''get_dev_examples'') \<in> later_events env"
  "Called (evaluate_call env ''get_dev_examples'') \<in> later_events env"
  "Called (examples_call env ''get_test_examples'') \<in> later_events env"
  "Called (set_features_call env ''get_test_examples'') \<in> later_events env"
  "Called (set_input_fn_call env ''get_test_examples'') \<in> later_events env"
  "Called (evaluate_call env ''get_test_examples'') \<in> later_events env"
  by (simp_all add: later_events.stats later_events.print_stats later_events.opens
      later_events.reads later_events.gets later_events.converts later_events.inputs
      later_events.evaluates getter_def)

lemma validation_body_appends:
  "validation_body env line s = (e, s') \<Longrightarrow> appends (later_events env) s s'"
  using to_prediction_later[of env]
  unfolding validation_body_def appends_def
  by (auto simp: emit_def Let_def later_events.prints split: list.splits option.splits if_splits)

lemma test_body_appends:
  "test_body env line s = (e, s') \<Longrightarrow> appends (later_events env) s s'"
  using to_prediction_later[of env]
  unfolding test_body_def appends_def
  by (auto simp: emit_def Let_def later_events.prints split: list.splits option.splits if_splits)

lemma print_class_appends:
  "print_class env label s = (e, s') \<Longrightarrow> appends (later_events env) s s'"
  unfolding print_class_def appends_def
  by (auto simp: emit_def later_events.prints split: option.splits)

lemma later_cells_appends:
  assumes "c \<in> set (later_cells env)" and "c s = (e, s')"
  shows "appends (later_events env) s s'"
proof -
  consider (c22) "c = cell_22 env" | (c24) "c = cell_24 env" | (c27) "c = cell_27 env"
    | (plain) "c \<in> {cell_23 env, cell_25 env, cell_26 env, cell_28 env, cell_29 env,
        cell_30 env, cell_31 env, cell_32 env, cell_33 env, cell_34 env, ok}"
    using assms(1) unfolding later_cells_def by auto
  then show ?thesis
  proof cases
    case c22
    with assms(2) have "for_loop (print_class env) (iter_preds env (result env)) s = (e, s')"
      by (simp add: cell_22_def)
    moreover have "\<forall>x s e s'. print_class env x s = (e, s') \<longrightarrow> appends (later_events env) s s'"
      using print_class_appends by blast
    ultimately show ?thesis by (rule for_loop_appends[rotated])
  next
    case c24
    let ?s0 = "s\<lparr>y_val := [], y_val_pred := [], incorrect := 0\<rparr>"
    from c24 assms(2)
    have "for_loop (validation_body env) (take max_api_calls (val_lines env)) ?s0 = (e, s')"
      by (simp add: cell_24_def validation_loop_def)
    moreover have "\<forall>x s e s'. validation_body env x s = (e, s') \<longrightarrow> appends (later_events env) s s'"
      using validation_body_appends by blast
    ultimately have "appends (later_events env) ?s0 s'" by (rule for_loop_appends[rotated])
    then show ?thesis by (simp add: appends_def)
  next
    case c27
    let ?s0 = "s\<lparr>y_test := [], y_test_pred := []\<rparr>"
    from c27 assms(2) have "for_loop (test_body env) (take 200 (test_lines env)) ?s0 = (e, s')"
      by (simp add: cell_27_def test_loop_def)
    moreover have "\<forall>x s e s'. test_body env x s = (e, s') \<longrightarrow> appends (later_events env) s s'"
      using test_body_appends by blast
    ultimately have "appends (later_events env) ?s0 s'" by (rule for_loop_appends[rotated])
    then show ?thesis by (simp add: appends_def)
  next
    case plain
    with assms(2) show ?thesis
      by (auto simp: cell_defs ok_def emit_def appends_def summary_def
          print_result_def later_intros later_events.prints)
  qed
qed

lemma later_cells_all:
  "\<forall>c\<in>set (later_cells env). \<forall>s e s'. c s = (e, s') \<longrightarrow> appends (later_events env) s s'"
  using later_cells_appends by blast

lemma notebook_trace:
  "\<exists>new. trace (snd (notebook env)) = setup_trace env @ new \<and> set new \<subseteq> later_events env"
proof -
  obtain e s' where r: "run_cells (later_cells env) (after_setup env) = (e, s')"
    by (cases "run_cells (later_cells env) (after_setup env)")
  have "snd (notebook env) = s'" by (simp add: notebook_later r)
  with run_cells_appends[OF later_cells_all r]
  show ?thesis by (simp add: appends_def after_setup_def)
qed

lemma notebook_sys_path:
  "sys_path (snd (notebook env)) = [''/Users/d777710/src/bert'', ''../..'']"
proof -
  obtain e s' where r: "run_cells (later_cells env) (after_setup env) = (e, s')"
    by (cases "run_cells (later_cells env) (after_setup env)")
  have "snd (notebook env) = s'" by (simp add: notebook_later r)
  with run_cells_appends[OF later_cells_all r]
  show ?thesis by (simp add: appends_def after_setup_def)
qed

lemma run_cells_completed:
  assumes "run_cells cs s = (None, s')" and "c \<in> set cs"
    and "\<forall>c\<in>set cs. \<forall>s e s'. c s = (e, s') \<longrightarrow> appends A s s'"
    and "\<forall>s s'. c s = (None, s') \<longrightarrow> X \<in> set (trace s')"
  shows "X \<in> set (trace s')"
  using assms(1,2,3)
proof (induction cs arbitrary: s)
  case Nil
  then show ?case by simp
next
  case (Cons d ds)
  obtain e1 s1 where d: "d s = (e1, s1)" by (cases "d s")
  with Cons.prems(1) have e1: "e1 = None" and r: "run_cells ds s1 = (None, s')"
    by (auto split: option.splits)
  have rest: "\<forall>c\<in>set ds. \<forall>s e s'. c s = (e, s') \<longrightarrow> appends A s s'"
    using Cons.prems(3) by simp
  show ?case
  proof (cases "c = d")
    case True
    with d e1 assms(4) have "X \<in> set (trace s1)" by blast
    with run_cells_appends[OF rest r] show ?thesis by (simp add: appends_mono)
  next
    case False
    with Cons.prems(2) have "c \<in> set ds" by simp
    from Cons.IH[OF r this rest] show ?thesis .
  qed
qed

lemma completed_events:
  assumes "fst (notebook env) = None"
  shows "Called (reader_call env val_csv) \<in> set (trace (snd (notebook env)))"
    and "Called (reader_call env test_csv) \<in> set (trace (snd (notebook env)))"
    and "Called (open_call val_csv) \<in> set (trace (snd (notebook env)))"
    and "Called (open_call test_csv) \<in> set (trace (snd (notebook env)))"
    and "Print ''Dev set performance:'' \<in> set (trace (snd (notebook env)))"
    and "Called (evaluate_call env ''get_dev_examples'') \<in> set (trace (snd (notebook env)))"
    and "Called (evaluate_call env ''get_test_examples'') \<in> set (trace (snd (notebook env)))"
proof -
  obtain s' where r: "run_cells (later_cells env) (after_setup env) = (None, s')"
    using assms by (cases "run_cells (later_cells env) (after_setup env)") (simp add: notebook_later)
  have s': "snd (notebook env) = s'" by (simp add: notebook_later r)
  note rc = run_cells_completed[OF r _ later_cells_all]
  show "Called (reader_call env val_csv) \<in> set (trace (snd (notebook env)))"
    unfolding s' by (rule rc[of "cell_23 env"]) (auto simp: later_cells_def cell_defs ok_def emit_def)
  show "Called (reader_call env test_csv) \<in> set (trace (snd (notebook env)))"
    unfolding s' by (rule rc[of "cell_26 env"]) (auto simp: later_cells_def cell_defs ok_def emit_def)
  show "Called (open_call val_csv) \<in> set (trace (snd (notebook env)))"
    unfolding s' by (rule rc[of "cell_23 env"]) (auto simp: later_cells_def cell_defs ok_def emit_def)
  show "Called (open_call test_csv) \<in> set (trace (snd (notebook env)))"
    unfolding s' by (rule rc[of "cell_26 env"]) (auto simp: later_cells_def cell_defs ok_def emit_def)
  show "Print ''Dev set performance:'' \<in> set (trace (snd (notebook env)))"
    unfolding s' by (rule rc[of "cell_25 env"]) (auto simp: later_cells_def cell_defs ok_def emit_def summary_def)
  show "Called (evaluate_call env ''get_dev_examples'') \<in> set (trace (snd (notebook env)))"
    unfolding s' by (rule rc[of "cell_30 env"]) (auto simp: later_cells_def cell_defs ok_def emit_def)
  show "Called (evaluate_call env ''get_test_examples'') \<in> set (trace (snd (notebook env)))"
    unfolding s' by (rule rc[of "cell_33 env"]) (auto simp: later_cells_def cell_defs ok_def emit_def)
qed

section \<open>When a run completes\<close>

text \<open>
  Whether a loop body raises depends on the environment and the row only, not on the state:
  a run completes as soon as the three loops do.
\<close>

lemma validation_body_status:
  "fst (validation_body env line s) = fst (validation_body env line s')"
  unfolding validation_body_def
  by (auto simp: Let_def split: list.splits option.splits)

lemma test_body_status: "fst (test_body env line s) = fst (test_body env line s')"
  unfolding test_body_def
  by (auto simp: Let_def split: list.splits option.splits)

lemma print_class_status: "fst (print_class env label s) = fst (print_class env label s')"
  unfolding print_class_def by (auto split: option.splits)

lemma for_loop_status:
  assumes "\<And>x s s'. fst (body x s) = fst (body x s')"
  shows "fst (for_loop body xs s) = fst (for_loop body xs s')"
proof (induction xs arbitrary: s s')
  case Nil
  then show ?case by simp
next
  case (Cons x xs)
  obtain e1 s1 where b1: "body x s = (e1, s1)" by (cases "body x s")
  obtain e2 s2 where b2: "body x s' = (e2, s2)" by (cases "body x s'")
  from assms[of x s s'] b1 b2 have e: "e2 = e1" by simp
  show ?case
  proof (cases e1)
    case None
    with b1 b2 e Cons.IH[of s1 s2] show ?thesis by simp
  next
    case (Some err)
    with b1 b2 e show ?thesis by simp
  qed
qed

lemma cell_22_status: "fst (cell_22 env s) = fst (cell_22 env fresh)"
  unfolding cell_22_def by (rule for_loop_status) (rule print_class_status)

lemma cell_24_status: "fst (cell_24 env s) = fst (cell_24 env fresh)"
  unfolding cell_24_def validation_loop_def
  by (rule for_loop_status) (rule validation_body_status)

lemma cell_27_status: "fst (cell_27 env s) = fst (cell_27 env fresh)"
  unfolding cell_27_def test_loop_def by (rule for_loop_status) (rule test_body_status)

lemma run_cells_step:
  "fst (d s) = None \<Longrightarrow> (\<And>s'. fst (run_cells ds s') = None) \<Longrightarrow> fst (run_cells (d # ds) s) = None"
  by (cases "d s") (auto split: option.splits)

lemma notebook_completes:
  assumes "fst (cell_22 env fresh) = None" "fst (cell_24 env fresh) = None"
    "fst (cell_27 env fresh) = None"
    and "\<not> read_raises env val_csv" "\<not> read_raises env test_csv"
  shows "fst (notebook env) = None"
proof -
  have c: "fst (cell_22 env s) = None" "fst (cell_24 env s) = None" "fst (cell_27 env s) = None" for s
    using assms cell_22_status[of env s] cell_24_status[of env s] cell_27_status[of env s]
    by simp_all
  have p: "fst (cell_23 env s) = None" "fst (cell_25 env s) = None" "fst (cell_26 env s) = None"
    "fst (cell_28 env s) = None" "fst (cell_29 env s) = None" "fst (cell_30 env s) = None"
    "fst (cell_31 env s) = None" "fst (cell_32 env s) = None" "fst (cell_33 env s) = None"
    "fst (cell_34 env s) = None" "fst (ok s) = None" for s
    using assms(4,5) by (simp_all add: cell_defs ok_def)
  show ?thesis
    unfolding notebook_later later_cells_def
    by (intro run_cells_step c p) simp
qed

lemma demo_completes: "fst (notebook demo) = None"
proof (rule notebook_completes)
  show "fst (cell_22 demo fresh) = None"
    by (simp add: cell_22_def print_class_def result_def classes_def demo_simps)
  show "fst (cell_24 demo fresh) = None"
    by (simp add: cell_24_def val_lines_def read_lines_def classes_def fresh_def demo_simps)
  show "fst (cell_27 demo fresh) = None"
    by (simp add: cell_27_def test_loop_def test_body_def test_lines_def read_lines_def
        classes_def fresh_def demo_simps)
  show "\<not> read_raises demo val_csv" "\<not> read_raises demo test_csv"
    by (simp_all add: read_raises_def demo_def)
qed

section \<open>Properties of the whole notebook\<close>

lemmas call_defs =
  bert_config_call_def processor_call_def label_list_call_def tokenizer_call_def
  model_fn_call_def tpu_config_call_def run_config_call_def estimator_call_def
  classes_call_def unicode_call_def example_call_def features_call_def input_fn_call_def
  predict_call_def open_call_def reader_call_def examples_call_def set_features_call_def
  set_input_fn_call_def evaluate_call_def stats_call_def print_stats_call_def

subsection \<open>What the notebook imports and opens\<close>

lemma imported_to_prediction: "concat (map imported (to_prediction env u)) = []"
  by (simp add: to_prediction_def to_features_def)

lemma opened_to_prediction: "concat (map opened (to_prediction env u)) = []"
  by (simp add: to_prediction_def to_features_def call_defs)

lemma imported_setup:
  "concat (map imported (setup_trace env)) =
     [''csv'', ''numpy'', ''os'', ''sys'', ''tensorflow'',
      ''text_classification_benchmarks.metrics'', ''modeling'', ''run_classifier'',
      ''tokenization'']"
  by (simp add: setup_trace_def imported_to_prediction)

lemma opened_setup: "concat (map opened (setup_trace env)) = [classes_txt]"
  by (simp add: setup_trace_def opened_to_prediction call_defs)

lemma later_imports_opens:
  "e \<in> later_events env \<Longrightarrow> imported e = [] \<and> set (opened e) \<subseteq> {val_csv, test_csv}"
proof (induction rule: later_events.induct)
  case (predicts e u)
  then show ?case by (auto simp: to_prediction_def to_features_def call_defs)
qed (auto simp: call_defs)

lemma concat_map_Nil: "(\<And>x. x \<in> set xs \<Longrightarrow> f x = []) \<Longrightarrow> concat (map f xs) = []"
  by (induction xs) auto

lemma opened_open_call: "Called (open_call p) \<in> set tr \<Longrightarrow> p \<in> set (concat (map opened tr))"
  by (force simp: open_call_def)

lemma opened_later:
  "set new \<subseteq> later_events env \<Longrightarrow> set (concat (map opened new)) \<subseteq> {val_csv, test_csv}"
  using later_imports_opens by fastforce

lemma imported_later: "set new \<subseteq> later_events env \<Longrightarrow> concat (map imported new) = []"
  using later_imports_opens by (intro concat_map_Nil) blast

text \<open>
  C1, as amended. The notebook is not self-contained. With the calls into the libraries
  returning, every run appends the directory of the external bert library and
  \<^verbatim>\<open>../..\<close> to \<^verbatim>\<open>sys.path\<close>, imports exactly the nine modules listed, among them
  \<^verbatim>\<open>text_classification_benchmarks.metrics\<close> for \<^verbatim>\<open>perf_summary\<close> and
  \<^verbatim>\<open>print_perf_summary\<close>, hands the directory \<^verbatim>\<open>DATA_DIR\<close> (the directory
  \<^verbatim>\<open>fastai\<close> of the package) to the CSV processor, and reads
  \<^verbatim>\<open>../fastai/classes.txt\<close>; a run that completes also reads \<^verbatim>\<open>../fastai/val.csv\<close>
  and \<^verbatim>\<open>../fastai/test.csv\<close>. These three files of the sibling directory are the only
  files that the notebook opens itself, with \<^verbatim>\<open>tf.gfile.Open\<close> and \<^verbatim>\<open>np.genfromtxt\<close>.
\<close>

theorem notebook_reads_sibling_directory:
  "sys_path (snd (notebook env)) = [''/Users/d777710/src/bert'', ''../..''] \<and>
   imported_modules (snd (notebook env)) =
     [''csv'', ''numpy'', ''os'', ''sys'', ''tensorflow'',
      ''text_classification_benchmarks.metrics'', ''modeling'', ''run_classifier'',
      ''tokenization''] \<and>
   FromImport ''text_classification_benchmarks.metrics'' [''perf_summary'', ''print_perf_summary'']
     \<in> set (trace (snd (notebook env))) \<and>
   Called (Method ''processor'' (processor env) ''get_labels'' [StrV DATA_DIR] [])
     \<in> set (trace (snd (notebook env))) \<and>
   ''../fastai/classes.txt'' \<in> set (opened_files (snd (notebook env))) \<and>
   set (opened_files (snd (notebook env))) \<subseteq>
     {''../fastai/classes.txt'', ''../fastai/val.csv'', ''../fastai/test.csv''} \<and>
   (fst (notebook env) = None \<longrightarrow>
      ''../fastai/val.csv'' \<in> set (opened_files (snd (notebook env))) \<and>
      ''../fastai/test.csv'' \<in> set (opened_files (snd (notebook env))))"
proof -
  obtain new where t: "trace (snd (notebook env)) = setup_trace env @ new"
    and n: "set new \<subseteq> later_events env"
    using notebook_trace by blast
  have i: "imported_modules (snd (notebook env)) = concat (map imported (setup_trace env))"
    by (simp add: imported_modules_def t imported_later[OF n])
  have o: "opened_files (snd (notebook env)) = classes_txt # concat (map opened new)"
    by (simp add: opened_files_def t opened_setup)
  have f: "set (opened_files (snd (notebook env))) \<subseteq> {classes_txt, val_csv, test_csv}"
    unfolding o using opened_later[OF n] by auto
  have c: "classes_txt \<in> set (opened_files (snd (notebook env)))"
    unfolding o by simp
  have m: "FromImport ''text_classification_benchmarks.metrics'' [''perf_summary'', ''print_perf_summary'']
     \<in> set (trace (snd (notebook env)))"
    by (simp add: t setup_trace_def)
  have d: "Called (Method ''processor'' (processor env) ''get_labels'' [StrV DATA_DIR] [])
     \<in> set (trace (snd (notebook env)))"
    by (simp add: t setup_trace_def label_list_call_def)
  have v: "val_csv \<in> set (opened_files (snd (notebook env))) \<and>
           test_csv \<in> set (opened_files (snd (notebook env)))"
    if "fst (notebook env) = None"
    unfolding opened_files_def using completed_events(3,4)[OF that] by (blast intro: opened_open_call)
  from f c v show ?thesis
    unfolding classes_txt_def val_csv_def test_csv_def
    using i m d notebook_sys_path[of env] by (simp add: imported_setup)
qed

theorem notebook_reads_sibling_directory_witness:
  "fst (notebook demo) = None \<and>
   sys_path (snd (notebook demo)) = [''/Users/d777710/src/bert'', ''../..''] \<and>
   FromImport ''text_classification_benchmarks.metrics'' [''perf_summary'', ''print_perf_summary'']
     \<in> set (trace (snd (notebook demo))) \<and>
   ''../fastai/classes.txt'' \<in> set (opened_files (snd (notebook demo))) \<and>
   ''../fastai/val.csv'' \<in> set (opened_files (snd (notebook demo))) \<and>
   ''../fastai/test.csv'' \<in> set (opened_files (snd (notebook demo)))"
  using notebook_reads_sibling_directory[of demo] demo_completes by blast

lemma self_contained_imports:
  "self_contained s \<Longrightarrow> e \<in> set (trace s) \<Longrightarrow> m \<in> set (imported e) \<Longrightarrow> \<not> repository_module m"
  by (auto simp: self_contained_def list_all_iff)

text \<open>
  C1, as the specification states it, fails on every run: the import of
  \<^verbatim>\<open>text_classification_benchmarks.metrics\<close> in cell 3 is an import of a module of the
  repository.
\<close>

theorem notebook_not_self_contained: "\<not> self_contained (snd (notebook demo))"
proof
  assume sc: "self_contained (snd (notebook demo))"
  have "FromImport ''text_classification_benchmarks.metrics'' [''perf_summary'', ''print_perf_summary'']
     \<in> set (trace (snd (notebook demo)))"
    using notebook_trace[of demo] by (auto simp: setup_trace_def)
  from self_contained_imports[OF sc this, of "''text_classification_benchmarks.metrics''"]
  show False by (simp add: repository_module_def)
qed

subsection \<open>Rows past the 200th\<close>

lemma summaries_append [simp]: "summaries (a @ b) = summaries a @ summaries b"
  by (simp add: summaries_def)

lemma summaries_Print [simp]: "summaries (Print l # tr) = summaries tr"
  by (simp add: summaries_def)

lemma summaries_Nil [simp]: "summaries [] = []"
  by (simp add: summaries_def)

lemma summaries_to_prediction [simp]: "summaries (to_prediction env u) = []"
  by (simp add: summaries_def to_prediction_def to_features_def call_defs)









lemma cell_27_keeps:
  assumes "cell_27 env s = (e, s')"
  shows "y_val s' = y_val s \<and> y_val_pred s' = y_val_pred s"
  using for_loop_test_lengths[OF assms[unfolded cell_27_def test_loop_def]] by simp



lemma run_cells_Cons_None:
  "run_cells (c # cs) s = (None, s') \<Longrightarrow> \<exists>s1. c s = (None, s1) \<and> run_cells cs s1 = (None, s')"
  by (cases "c s") (auto split: option.splits)

lemma run_cells_completed_at:
  assumes "run_cells (cs @ c # ds) s = (None, s')"
  shows "\<exists>s1 s2. run_cells cs s = (None, s1) \<and> c s1 = (None, s2) \<and> run_cells ds s2 = (None, s')"
proof -
  obtain e1 s1 where r1: "run_cells cs s = (e1, s1)" by (cases "run_cells cs s")
  obtain e2 s2 where r2: "c s1 = (e2, s2)" by (cases "c s1")
  from assms r1 have e1: "e1 = None" and r: "run_cells (c # ds) s1 = (None, s')"
    by (auto simp: run_cells_append split: option.splits)
  from r r2 have "e2 = None" and "run_cells ds s2 = (None, s')"
    by (auto split: option.splits)
  with r1 e1 r2 show ?thesis by blast
qed

lemma summary_kept:
  assumes "run_cells cs s = (e, s')"
    and "set cs \<subseteq> {cell_26 env, cell_27 env, cell_28 env, cell_29 env, cell_30 env, cell_31 env,
                    cell_32 env, cell_33 env, cell_34 env, ok}"
    and "X \<in> set (trace s)"
  shows "y_val s' = y_val s \<and> y_val_pred s' = y_val_pred s \<and> X \<in> set (trace s')"
proof -
  let ?P = "\<lambda>t. y_val t = y_val s \<and> y_val_pred t = y_val_pred s \<and> X \<in> set (trace t)"
  have "?P s'"
  proof (rule run_cells_invariant[where P = ?P, OF assms(1)])
    show "?P s" using assms(3) by simp
  next
    fix c t e t'
    assume c: "c \<in> set cs" and p: "?P t" and r: "c t = (e, t')"
    from c assms(2) consider (c27) "c = cell_27 env"
      | (plain) "c \<in> {cell_26 env, cell_28 env, cell_29 env, cell_30 env, cell_31 env,
                      cell_32 env, cell_33 env, cell_34 env, ok}"
      by blast
    then show "?P t'"
    proof cases
      case c27
      with r have l: "for_loop (test_body env) (take 200 (test_lines env))
          (t\<lparr>y_test := [], y_test_pred := []\<rparr>) = (e, t')"
        by (simp add: cell_27_def test_loop_def)
      have "\<forall>x s e s'. test_body env x s = (e, s') \<longrightarrow> appends (later_events env) s s'"
        using test_body_appends by blast
      then have "appends (later_events env) (t\<lparr>y_test := [], y_test_pred := []\<rparr>) t'"
        using l by (rule for_loop_appends)
      with p for_loop_test_lengths[OF l] show ?thesis by (auto simp: appends_def)
    next
      case plain
      with p r show ?thesis by (auto simp: cell_defs ok_def emit_def)
    qed
  qed
  then show ?thesis .
qed

lemma test_summary_kept:
  assumes "run_cells cs s = (e, s')"
    and "set cs \<subseteq> {cell_29 env, cell_30 env, cell_31 env, cell_32 env, cell_33 env, cell_34 env, ok}"
    and "X \<in> set (trace s)"
  shows "y_test s' = y_test s \<and> y_test_pred s' = y_test_pred s \<and> X \<in> set (trace s')"
proof -
  let ?P = "\<lambda>t. y_test t = y_test s \<and> y_test_pred t = y_test_pred s \<and> X \<in> set (trace t)"
  have "?P s'"
  proof (rule run_cells_invariant[where P = ?P, OF assms(1)])
    show "?P s" using assms(3) by simp
  next
    fix c t e t'
    assume c: "c \<in> set cs" and p: "?P t" and r: "c t = (e, t')"
    from c assms(2) have "c \<in> {cell_29 env, cell_30 env, cell_31 env, cell_32 env, cell_33 env,
        cell_34 env, ok}"
      by blast
    with p r show "?P t'" by (auto simp: cell_defs ok_def emit_def)
  qed
  then show ?thesis .
qed

lemma completed_summaries:
  assumes "fst (notebook env) = None"
  shows "Called (stats_call (y_val (snd (notebook env))) (y_val_pred (snd (notebook env))))
           \<in> set (trace (snd (notebook env)))"
    and "Called (print_stats_call env (y_val (snd (notebook env))) (y_val_pred (snd (notebook env))))
           \<in> set (trace (snd (notebook env)))"
    and "Called (stats_call (y_test (snd (notebook env))) (y_test_pred (snd (notebook env))))
           \<in> set (trace (snd (notebook env)))"
    and "Called (print_stats_call env (y_test (snd (notebook env))) (y_test_pred (snd (notebook env))))
           \<in> set (trace (snd (notebook env)))"
proof -
  obtain s' where r: "run_cells (later_cells env) (after_setup env) = (None, s')"
    using assms by (cases "run_cells (later_cells env) (after_setup env)") (simp add: notebook_later)
  have s': "snd (notebook env) = s'" by (simp add: notebook_later r)
  let ?dev = "[cell_26 env, cell_27 env, cell_28 env, cell_29 env, cell_30 env, cell_31 env,
               cell_32 env, cell_33 env, cell_34 env, ok]"
  let ?test = "[cell_29 env, cell_30 env, cell_31 env, cell_32 env, cell_33 env, cell_34 env, ok]"
  have "later_cells env = [cell_22 env, cell_23 env, cell_24 env] @ cell_25 env # ?dev"
    by (simp add: later_cells_def)
  with r obtain s1 s2 where c25: "cell_25 env s1 = (None, s2)" and d: "run_cells ?dev s2 = (None, s')"
    using run_cells_completed_at[of "[cell_22 env, cell_23 env, cell_24 env]" "cell_25 env" ?dev]
    by metis
  from c25 have s2: "s2 = emit (summary env ''Dev set performance:'' (y_val s1) (y_val_pred s1)) s1"
    by (simp add: cell_25_def ok_def)
  have k1: "y_val s' = y_val s2 \<and> y_val_pred s' = y_val_pred s2 \<and>
            Called (stats_call (y_val s1) (y_val_pred s1)) \<in> set (trace s')"
    by (rule summary_kept[OF d]) (auto simp: s2 emit_def summary_def)
  have k2: "y_val s' = y_val s2 \<and> y_val_pred s' = y_val_pred s2 \<and>
            Called (print_stats_call env (y_val s1) (y_val_pred s1)) \<in> set (trace s')"
    by (rule summary_kept[OF d]) (auto simp: s2 emit_def summary_def)
  have l2: "y_val s2 = y_val s1" "y_val_pred s2 = y_val_pred s1" by (simp_all add: s2 emit_def)
  have "later_cells env = [cell_22 env, cell_23 env, cell_24 env, cell_25 env, cell_26 env,
      cell_27 env] @ cell_28 env # ?test"
    by (simp add: later_cells_def)
  with r obtain s3 s4 where c28: "cell_28 env s3 = (None, s4)" and t: "run_cells ?test s4 = (None, s')"
    using run_cells_completed_at[of "[cell_22 env, cell_23 env, cell_24 env, cell_25 env,
        cell_26 env, cell_27 env]" "cell_28 env" ?test]
    by metis
  from c28 have s4: "s4 = emit (summary env ''Test set performance:'' (y_test s3) (y_test_pred s3)) s3"
    by (simp add: cell_28_def ok_def)
  have k3: "y_test s' = y_test s4 \<and> y_test_pred s' = y_test_pred s4 \<and>
            Called (stats_call (y_test s3) (y_test_pred s3)) \<in> set (trace s')"
    by (rule test_summary_kept[OF t]) (auto simp: s4 emit_def summary_def)
  have k4: "y_test s' = y_test s4 \<and> y_test_pred s' = y_test_pred s4 \<and>
            Called (print_stats_call env (y_test s3) (y_test_pred s3)) \<in> set (trace s')"
    by (rule test_summary_kept[OF t]) (auto simp: s4 emit_def summary_def)
  have l4: "y_test s4 = y_test s3" "y_test_pred s4 = y_test_pred s3" by (simp_all add: s4 emit_def)
  show "Called (stats_call (y_val (snd (notebook env))) (y_val_pred (snd (notebook env))))
           \<in> set (trace (snd (notebook env)))"
    using k1 l2 by (simp add: s')
  show "Called (print_stats_call env (y_val (snd (notebook env))) (y_val_pred (snd (notebook env))))
           \<in> set (trace (snd (notebook env)))"
    using k2 l2 by (simp add: s')
  show "Called (stats_call (y_test (snd (notebook env))) (y_test_pred (snd (notebook env))))
           \<in> set (trace (snd (notebook env)))"
    using k3 l4 by (simp add: s')
  show "Called (print_stats_call env (y_test (snd (notebook env))) (y_test_pred (snd (notebook env))))
           \<in> set (trace (snd (notebook env)))"
    using k4 l4 by (simp add: s')
qed








subsection \<open>The estimator is only consumed\<close>






subsection \<open>The sequence of processing steps\<close>

lemma step_of_mem: "e \<in> set tr \<Longrightarrow> k \<in> set (step_of e) \<Longrightarrow> k \<in> set (concat (map step_of tr))"
  by auto

lemma steps_to_prediction:
  "concat (map step_of (to_prediction env u)) =
     [ConvertText, ConvertText, ConvertText, ConvertText, PredictEvaluate]"
  by (simp add: to_prediction_def to_features_def call_defs)

lemma steps_setup: "concat (map step_of (setup_trace env)) = setup_steps"
  by (simp add: setup_trace_def steps_to_prediction setup_steps_def call_defs)

lemma fixed_shape_to_prediction: "e \<in> set (to_prediction env u) \<Longrightarrow> fixed_shape e"
  by (auto simp: to_prediction_def to_features_def call_defs max_seq_length_def)

lemma fixed_shape_setup: "e \<in> set (setup_trace env) \<Longrightarrow> fixed_shape e"
  using fixed_shape_to_prediction[of e env sample_utterance]
  by (auto simp: setup_trace_def call_defs)

lemma later_step:
  "e \<in> later_events env \<Longrightarrow>
   set (step_of e) \<subseteq> {ConvertText, PredictEvaluate, PrintMetrics, Other} \<and> fixed_shape e"
proof (induction rule: later_events.induct)
  case (predicts e u)
  then show ?case
    by (auto simp: to_prediction_def to_features_def call_defs max_seq_length_def)
qed (auto simp: call_defs max_seq_length_def)

lemma completed_order:
  assumes "fst (notebook env) = None"
  shows "\<exists>a b. trace (snd (notebook env)) = a @ b \<and>
           Print ''Dev set performance:'' \<in> set a \<and>
           Called (evaluate_call env ''get_dev_examples'') \<in> set b"
proof -
  let ?first = "[cell_22 env, cell_23 env, cell_24 env, cell_25 env, cell_26 env, cell_27 env,
                 cell_28 env]"
  let ?last = "[cell_29 env, cell_30 env, cell_31 env, cell_32 env, cell_33 env, cell_34 env, ok]"
  have split: "later_cells env = ?first @ ?last" by (simp add: later_cells_def)
  obtain e1 s1 where r1: "run_cells ?first (after_setup env) = (e1, s1)"
    by (cases "run_cells ?first (after_setup env)")
  have n: "notebook env = (case e1 of None \<Rightarrow> run_cells ?last s1 | Some e \<Rightarrow> (Some e, s1))"
    unfolding notebook_later split run_cells_append r1 by simp
  with assms have e1: "e1 = None" by (cases e1) auto
  have sub: "\<forall>c\<in>set ?first. \<forall>s e s'. c s = (e, s') \<longrightarrow> appends (later_events env) s s'"
    using later_cells_all[of env] unfolding split by simp
  have a: "Print ''Dev set performance:'' \<in> set (trace s1)"
    by (rule run_cells_completed[OF r1[unfolded e1] _ sub, of "cell_25 env"])
       (auto simp: cell_defs ok_def emit_def summary_def)
  have "run_cells ?last s1 = (None, emit
      ([Called (examples_call env ''get_dev_examples''),
        Called (set_features_call env ''get_dev_examples''),
        Called (set_input_fn_call env ''get_dev_examples''),
        Called (evaluate_call env ''get_dev_examples'')] @ print_result env (eval_result env) @
       [Called (examples_call env ''get_test_examples''),
        Called (set_features_call env ''get_test_examples''),
        Called (set_input_fn_call env ''get_test_examples''),
        Called (evaluate_call env ''get_test_examples'')] @ print_result env (test_result env)) s1)"
    by (simp add: cell_defs ok_def emit_def)
  with n e1 have "trace (snd (notebook env)) = trace s1 @
      ([Called (examples_call env ''get_dev_examples''),
        Called (set_features_call env ''get_dev_examples''),
        Called (set_input_fn_call env ''get_dev_examples''),
        Called (evaluate_call env ''get_dev_examples'')] @ print_result env (eval_result env) @
       [Called (examples_call env ''get_test_examples''),
        Called (set_features_call env ''get_test_examples''),
        Called (set_input_fn_call env ''get_test_examples''),
        Called (evaluate_call env ''get_test_examples'')] @ print_result env (test_result env))"
    by (simp add: emit_def)
  with a show ?thesis by (intro exI conjI) (assumption, assumption, simp)
qed

lemma steps_shape:
  "\<exists>rest. steps (snd (notebook env)) = setup_steps @ rest \<and>
          set rest \<subseteq> {ConvertText, PredictEvaluate, PrintMetrics, Other}"
proof -
  obtain new where t: "trace (snd (notebook env)) = setup_trace env @ new"
    and n: "set new \<subseteq> later_events env"
    using notebook_trace by blast
  have "steps (snd (notebook env)) = setup_steps @ concat (map step_of new)"
    by (simp add: steps_def t steps_setup)
  moreover have "set (concat (map step_of new)) \<subseteq> {ConvertText, PredictEvaluate, PrintMetrics, Other}"
    using n later_step by fastforce
  ultimately show ?thesis by blast
qed

lemma notebook_fixed_shape:
  assumes "e \<in> set (trace (snd (notebook env)))"
  shows "fixed_shape e"
proof -
  obtain new where t: "trace (snd (notebook env)) = setup_trace env @ new"
    and n: "set new \<subseteq> later_events env"
    using notebook_trace by blast
  from assms t consider "e \<in> set (setup_trace env)" | "e \<in> set new" by auto
  then show ?thesis
  proof cases
    case 1
    then show ?thesis by (rule fixed_shape_setup)
  next
    case 2
    with n have "e \<in> later_events env" by blast
    then show ?thesis using later_step by blast
  qed
qed

lemma notebook_loads_config:
  "Called (Fn ''modeling.BertConfig.from_json_file'' [StrV (BERT_BASE_DIR @ ''/bert_config.json'')] [])
     \<in> set (trace (snd (notebook env)))"
proof -
  obtain new where t: "trace (snd (notebook env)) = setup_trace env @ new"
    using notebook_trace by blast
  show ?thesis
    by (simp add: t setup_trace_def bert_config_call_def config_file_def os_path_join_def
        BERT_BASE_DIR_def)
qed

lemma completed_interleaving:
  assumes "fst (notebook env) = None"
  shows "\<exists>a b. trace (snd (notebook env)) = a @ b \<and>
           Called (predict_call env sample_utterance) \<in> set a \<and>
           Print ''Dev set performance:'' \<in> set a \<and>
           Called (set_features_call env ''get_dev_examples'') \<in> set b \<and>
           Called (evaluate_call env ''get_dev_examples'') \<in> set b"
proof -
  let ?first = "[cell_22 env, cell_23 env, cell_24 env, cell_25 env, cell_26 env, cell_27 env,
                 cell_28 env]"
  let ?last = "[cell_29 env, cell_30 env, cell_31 env, cell_32 env, cell_33 env, cell_34 env, ok]"
  let ?b = "[Called (examples_call env ''get_dev_examples''),
        Called (set_features_call env ''get_dev_examples''),
        Called (set_input_fn_call env ''get_dev_examples''),
        Called (evaluate_call env ''get_dev_examples'')] @ print_result env (eval_result env) @
       [Called (examples_call env ''get_test_examples''),
        Called (set_features_call env ''get_test_examples''),
        Called (set_input_fn_call env ''get_test_examples''),
        Called (evaluate_call env ''get_test_examples'')] @ print_result env (test_result env)"
  have split: "later_cells env = ?first @ ?last" by (simp add: later_cells_def)
  obtain e1 s1 where r1: "run_cells ?first (after_setup env) = (e1, s1)"
    by (cases "run_cells ?first (after_setup env)")
  have n: "notebook env = (case e1 of None \<Rightarrow> run_cells ?last s1 | Some e \<Rightarrow> (Some e, s1))"
    unfolding notebook_later split run_cells_append r1 by simp
  with assms have e1: "e1 = None" by (cases e1) auto
  have sub: "\<forall>c\<in>set ?first. \<forall>s e s'. c s = (e, s') \<longrightarrow> appends (later_events env) s s'"
    using later_cells_all[of env] unfolding split by simp
  have a: "Print ''Dev set performance:'' \<in> set (trace s1)"
    by (rule run_cells_completed[OF r1[unfolded e1] _ sub, of "cell_25 env"])
       (auto simp: cell_defs ok_def emit_def summary_def)
  have "Called (predict_call env sample_utterance) \<in> set (trace (after_setup env))"
    by (simp add: after_setup_def setup_trace_def to_prediction_def)
  with run_cells_appends[OF sub r1]
  have p: "Called (predict_call env sample_utterance) \<in> set (trace s1)"
    by (rule appends_mono)
  have "run_cells ?last s1 = (None, emit ?b s1)"
    by (simp add: cell_defs ok_def emit_def)
  with n e1 have "trace (snd (notebook env)) = trace s1 @ ?b"
    by (simp add: emit_def)
  with a p show ?thesis by (intro exI[of _ "trace s1"] exI[of _ ?b]) simp
qed

lemma notebook_first_events:
  "take (length (setup_trace env)) (trace (snd (notebook env))) = setup_trace env"
  using notebook_trace[of env] by auto

lemma notebook_other_calls:
  "Called (Fn ''clf.CsvProcessor'' [] []) \<in> set (setup_trace env)"
  "Called (Fn ''tokenization.FullTokenizer'' []
     [(''vocab_file'', StrV (BERT_BASE_DIR @ ''/vocab.txt'')), (''do_lower_case'', BoolV True)])
     \<in> set (setup_trace env)"
  "Called (Fn ''np.genfromtxt'' [StrV ''../fastai/classes.txt''] [(''dtype'', AttrV ''str'')])
     \<in> set (setup_trace env)"
  by (simp_all add: setup_trace_def call_defs vocab_file_def os_path_join_def BERT_BASE_DIR_def
      classes_txt_def)

text \<open>
  C2, as amended. Every run starts with the events of cells 1 to 21, in this order: the
  imports, the log level, the configuration loaded from \<^verbatim>\<open>bert_config.json\<close>, the CSV
  processor, its labels, the tokenizer, then the model function, the TPU and run
  configuration and the estimator built, the sample utterance converted and handed to
  \<^verbatim>\<open>predict\<close>, and the class names loaded with \<^verbatim>\<open>np.genfromtxt\<close>. After that the
  configuration is not loaded and nothing is built again: every later step converts text,
  predicts or evaluates through the estimator, prints, or is of another kind. Every
  conversion, in every cell, uses the sequence length 128. A run that completes has also
  read both CSV files with \<^verbatim>\<open>csv.reader\<close>, computed with \<^verbatim>\<open>perf_summary\<close> and printed
  with \<^verbatim>\<open>print_perf_summary\<close> the summary of the validation labels and that of the test
  labels; and it has predicted the sample utterance and printed the summary of the
  validation set before it converts the evaluation set and calls \<^verbatim>\<open>evaluate\<close>: the
  kinds of steps do not follow one another as phases.
\<close>

theorem notebook_steps:
  "take (length (setup_trace env)) (trace (snd (notebook env))) = setup_trace env \<and>
   take (length setup_steps) (steps (snd (notebook env))) = setup_steps \<and>
   set (drop (length setup_steps) (steps (snd (notebook env)))) \<subseteq>
     {ConvertText, PredictEvaluate, PrintMetrics, Other} \<and>
   Called (Fn ''modeling.BertConfig.from_json_file'' [StrV (BERT_BASE_DIR @ ''/bert_config.json'')] [])
     \<in> set (trace (snd (notebook env))) \<and>
   Called (Fn ''clf.CsvProcessor'' [] []) \<in> set (trace (snd (notebook env))) \<and>
   Called (Fn ''tokenization.FullTokenizer'' []
     [(''vocab_file'', StrV (BERT_BASE_DIR @ ''/vocab.txt'')), (''do_lower_case'', BoolV True)])
     \<in> set (trace (snd (notebook env))) \<and>
   Called (Fn ''np.genfromtxt'' [StrV ''../fastai/classes.txt''] [(''dtype'', AttrV ''str'')])
     \<in> set (trace (snd (notebook env))) \<and>
   (\<forall>e\<in>set (trace (snd (notebook env))). fixed_shape e) \<and>
   (fst (notebook env) = None \<longrightarrow>
      Called (reader_call env val_csv) \<in> set (trace (snd (notebook env))) \<and>
      Called (reader_call env test_csv) \<in> set (trace (snd (notebook env))) \<and>
      Called (stats_call (y_val (snd (notebook env))) (y_val_pred (snd (notebook env))))
        \<in> set (trace (snd (notebook env))) \<and>
      Called (print_stats_call env (y_val (snd (notebook env))) (y_val_pred (snd (notebook env))))
        \<in> set (trace (snd (notebook env))) \<and>
      Called (stats_call (y_test (snd (notebook env))) (y_test_pred (snd (notebook env))))
        \<in> set (trace (snd (notebook env))) \<and>
      Called (print_stats_call env (y_test (snd (notebook env))) (y_test_pred (snd (notebook env))))
        \<in> set (trace (snd (notebook env))) \<and>
      (\<exists>a b. trace (snd (notebook env)) = a @ b \<and>
         Called (predict_call env sample_utterance) \<in> set a \<and>
         Print ''Dev set performance:'' \<in> set a \<and>
         Called (set_features_call env ''get_dev_examples'') \<in> set b \<and>
         Called (evaluate_call env ''get_dev_examples'') \<in> set b))"
proof -
  obtain rest where r: "steps (snd (notebook env)) = setup_steps @ rest"
    and "set rest \<subseteq> {ConvertText, PredictEvaluate, PrintMetrics, Other}"
    using steps_shape by blast
  then have s: "take (length setup_steps) (steps (snd (notebook env))) = setup_steps"
    "set (drop (length setup_steps) (steps (snd (notebook env)))) \<subseteq>
       {ConvertText, PredictEvaluate, PrintMetrics, Other}"
    by simp_all
  obtain new where t: "trace (snd (notebook env)) = setup_trace env @ new"
    using notebook_trace by blast
  have o: "Called (Fn ''clf.CsvProcessor'' [] []) \<in> set (trace (snd (notebook env)))"
    "Called (Fn ''tokenization.FullTokenizer'' []
     [(''vocab_file'', StrV (BERT_BASE_DIR @ ''/vocab.txt'')), (''do_lower_case'', BoolV True)])
     \<in> set (trace (snd (notebook env)))"
    "Called (Fn ''np.genfromtxt'' [StrV ''../fastai/classes.txt''] [(''dtype'', AttrV ''str'')])
     \<in> set (trace (snd (notebook env)))"
    using notebook_other_calls[of env] by (simp_all add: t)
  have f: "\<forall>e\<in>set (trace (snd (notebook env))). fixed_shape e"
    using notebook_fixed_shape[of _ env] by blast
  have c: "fst (notebook env) = None \<longrightarrow>
      Called (reader_call env val_csv) \<in> set (trace (snd (notebook env))) \<and>
      Called (reader_call env test_csv) \<in> set (trace (snd (notebook env))) \<and>
      Called (stats_call (y_val (snd (notebook env))) (y_val_pred (snd (notebook env))))
        \<in> set (trace (snd (notebook env))) \<and>
      Called (print_stats_call env (y_val (snd (notebook env))) (y_val_pred (snd (notebook env))))
        \<in> set (trace (snd (notebook env))) \<and>
      Called (stats_call (y_test (snd (notebook env))) (y_test_pred (snd (notebook env))))
        \<in> set (trace (snd (notebook env))) \<and>
      Called (print_stats_call env (y_test (snd (notebook env))) (y_test_pred (snd (notebook env))))
        \<in> set (trace (snd (notebook env))) \<and>
      (\<exists>a b. trace (snd (notebook env)) = a @ b \<and>
         Called (predict_call env sample_utterance) \<in> set a \<and>
         Print ''Dev set performance:'' \<in> set a \<and>
         Called (set_features_call env ''get_dev_examples'') \<in> set b \<and>
         Called (evaluate_call env ''get_dev_examples'') \<in> set b)"
    using completed_events(1,2)[of env] completed_summaries[of env] completed_interleaving[of env]
    by (intro impI conjI)
  from notebook_first_events[of env] s notebook_loads_config[of env] o f c
  show ?thesis by (intro conjI)
qed

theorem notebook_steps_witness:
  "fst (notebook demo) = None \<and>
   take (length (setup_trace demo)) (trace (snd (notebook demo))) = setup_trace demo \<and>
   take (length setup_steps) (steps (snd (notebook demo))) = setup_steps \<and>
   Called (features_call demo sample_utterance) \<in> set (trace (snd (notebook demo))) \<and>
   fixed_shape (Called (features_call demo sample_utterance)) \<and>
   Called (reader_call demo val_csv) \<in> set (trace (snd (notebook demo))) \<and>
   Called (reader_call demo test_csv) \<in> set (trace (snd (notebook demo))) \<and>
   Called (stats_call (y_val (snd (notebook demo))) (y_val_pred (snd (notebook demo))))
     \<in> set (trace (snd (notebook demo))) \<and>
   Called (stats_call (y_test (snd (notebook demo))) (y_test_pred (snd (notebook demo))))
     \<in> set (trace (snd (notebook demo)))"
proof -
  have "Called (features_call demo sample_utterance) \<in> set (trace (snd (notebook demo)))"
    using notebook_trace[of demo] by (auto simp: setup_trace_def to_prediction_def to_features_def)
  with notebook_steps[of demo] demo_completes show ?thesis by blast
qed

text \<open>
  C2, as the specification states it, fails on the small environment, in both of its
  parts. The line \<^verbatim>\<open>Dev set performance:\<close> is printed before \<^verbatim>\<open>estimator.evaluate\<close> is
  called, so the steps of the five kinds do not come in the order of the list; and there
  are steps of other kinds.
\<close>

theorem notebook_steps_not_as_claimed:
  "\<not> in_order (snd (notebook demo)) \<and> \<not> nothing_else (snd (notebook demo)) \<and>
   \<not> as_claimed (snd (notebook demo))"
proof -
  obtain a b where t: "trace (snd (notebook demo)) = a @ b"
    and a: "Print ''Dev set performance:'' \<in> set a"
    and b: "Called (evaluate_call demo ''get_dev_examples'') \<in> set b"
    using completed_order[OF demo_completes] by blast
  have pa: "PrintMetrics \<in> set (concat (map step_of a))"
    by (rule step_of_mem[OF a]) simp
  have pb: "PredictEvaluate \<in> set (concat (map step_of b))"
    by (rule step_of_mem[OF b]) (simp add: evaluate_call_def)
  have o: "\<not> in_order (snd (notebook demo))"
  proof
    assume "in_order (snd (notebook demo))"
    then have "sorted (map rank (filter (\<lambda>k. k \<noteq> Other) (concat (map step_of a))) @
                       map rank (filter (\<lambda>k. k \<noteq> Other) (concat (map step_of b))))"
      by (simp add: in_order_def steps_def t)
    then have "\<forall>x\<in>set (map rank (filter (\<lambda>k. k \<noteq> Other) (concat (map step_of a)))).
               \<forall>y\<in>set (map rank (filter (\<lambda>k. k \<noteq> Other) (concat (map step_of b)))). x \<le> y"
      by (simp only: sorted_append) blast
    moreover have "rank PrintMetrics \<in> set (map rank (filter (\<lambda>k. k \<noteq> Other) (concat (map step_of a))))"
      using pa by (simp only: set_map set_filter) blast
    moreover have "rank PredictEvaluate \<in> set (map rank (filter (\<lambda>k. k \<noteq> Other) (concat (map step_of b))))"
      using pb by (simp only: set_map set_filter) blast
    ultimately have "rank PrintMetrics \<le> rank PredictEvaluate" by blast
    then show False by simp
  qed
  obtain rest where "steps (snd (notebook demo)) = setup_steps @ rest"
    using steps_shape by blast
  then have e: "\<not> nothing_else (snd (notebook demo))"
    by (simp add: nothing_else_def setup_steps_def)
  from o e show ?thesis by (simp add: as_claimed_def)
qed

end
